theory Spec2Isabelle
  imports Complex_Main "HOL-Library.Multiset"
begin

section \<open>Domain model (types.ts)\<close>

text \<open>
  A TypeScript \<^verbatim>\<open>number\<close> is a finite \<^typ>\<open>real\<close>. Where a result depends on
  the order of many additions (the account balances), every addition and subtraction is
  rounded to the nearest double; elsewhere the arithmetic on the few numbers involved is
  taken as exact. A \<^verbatim>\<open>string\<close> is a \<^typ>\<open>string\<close>. An optional field is an \<^typ>\<open>'a option\<close>.
  Record fields carry a short prefix of their interface, since field names are global.
\<close>

datatype TransactionType = INCOME | EXPENSE

datatype AccountType = CHECKING | SAVINGS | CASH | CREDIT

datatype PopulationChange = BOUGHT | BIRTH | SOLD | DEATH

datatype MovementType = IN | OUT

datatype AssetTerm = SHORT_TERM | LONG_TERM

datatype AssetCategory =
  EQUIPMENT | VEHICLE | REAL_ESTATE | TECHNOLOGY | LIVESTOCK | INVENTORY | OTHER_ASSET

datatype LiabilityCategory = LOAN | CREDIT_CARD | MORTGAGE | ACCOUNTS_PAYABLE | OTHER

datatype PaymentFrequency = MONTHLY | YEARLY | ONE_TIME

record Category =
  cat_id :: string
  cat_name :: string
  cat_type :: TransactionType
  cat_color :: string

record Account =
  acc_id :: string
  acc_name :: string
  acc_type :: AccountType
  acc_initialBalance :: real

record Transaction =
  tx_id :: string
  tx_date :: string
  tx_description :: string
  tx_amount :: real
  tx_categoryId :: string
  tx_accountId :: string
  tx_type :: TransactionType

record NavItemConfig =
  nav_id :: string
  nav_visible :: bool

record AnimalSpecies =
  sp_id :: string
  sp_name :: string
  sp_tag :: string
  sp_breed :: string
  sp_count :: real
  sp_estimatedValue :: real

record AnimalLog =
  log_id :: string
  log_speciesId :: string
  log_date :: string
  log_type :: PopulationChange
  log_quantity :: real
  log_note :: string
  log_valueAtTime :: real

record InventoryItem =
  item_id :: string
  item_name :: string
  item_sku :: string
  item_description :: string
  item_quantity :: real
  item_unitCost :: real
  item_assetTerm :: AssetTerm

record InventoryMovement =
  mv_id :: string
  mv_itemId :: string
  mv_type :: MovementType
  mv_quantity :: real
  mv_note :: string
  mv_date :: string
  mv_unitCostAtTime :: real

record Asset =
  as_id :: string
  as_name :: string
  as_category :: AssetCategory
  as_purchaseDate :: string
  as_purchasePrice :: real
  as_currentValue :: real
  as_description :: string

text \<open>
  \<^verbatim>\<open>dueDate\<close> is the value of a date input: absent or empty (\<open>None\<close>), or a
  \<^verbatim>\<open>YYYY-MM-DD\<close> string, kept here as the calendar day it names, counted in days
  from 1970-01-01.
\<close>

record Liability =
  li_id :: string
  li_name :: string
  li_category :: LiabilityCategory
  li_originalAmount :: real
  li_currentBalance :: real
  li_interestRate :: real
  li_dueDate :: "int option"
  li_installmentAmount :: "real option"
  li_paymentFrequency :: "PaymentFrequency option"
  li_description :: string

text \<open>The snapshot held by \<^verbatim>\<open>App\<close> (services/apiService.ts, \<^verbatim>\<open>FarmData\<close>).\<close>

record FarmData =
  transactions :: "Transaction list"
  categories :: "Category list"
  accounts :: "Account list"
  animalSpecies :: "AnimalSpecies list"
  animalLogs :: "AnimalLog list"
  inventoryItems :: "InventoryItem list"
  inventoryMovements :: "InventoryMovement list"
  assets :: "Asset list"
  liabilities :: "Liability list"
  sidebarConfig :: "NavItemConfig list"
  isSidebarCollapsed :: bool

record User =
  user_name :: string
  user_email :: string


section \<open>Double-precision arithmetic\<close>

text \<open>
  The binary64 format: 53 significant bits, exponents from -1022 to 1023. \<open>binade x\<close>
  is the exponent of the power of two at or below \<open>\<bar>x\<bar>\<close>, not going below the smallest
  normal exponent; \<open>ulp x\<close> is the spacing of the doubles there.
\<close>

definition binade :: "real \<Rightarrow> int" where
  "binade x = max \<lfloor>log 2 \<bar>x\<bar>\<rfloor> (- 1022)"

definition ulp :: "real \<Rightarrow> real" where
  "ulp x = 2 powi (binade x - 52)"

definition roundHalfEven :: "real \<Rightarrow> int" where
  "roundHalfEven y =
     (let f = \<lfloor>y\<rfloor>
      in if y - of_int f < 1 / 2 then f
         else if 1 / 2 < y - of_int f then f + 1
         else if even f then f else f + 1)"

definition maxDouble :: real where
  "maxDouble = 2 ^ 1024 - 2 ^ 971"

text \<open>
  Rounding of an exact result to the nearest double, ties to the even significand.
  \<open>None\<close> stands for a result that is not a finite number.
\<close>

definition fl :: "real \<Rightarrow> real option" where
  "fl x =
     (if x = 0 then Some 0
      else (let r = of_int (roundHalfEven (x / ulp x)) * ulp x
            in if \<bar>r\<bar> > maxDouble then None else Some r))"

text \<open>
  \<^verbatim>\<open>balance += amount\<close> and \<^verbatim>\<open>balance -= amount\<close> for a finite amount: a balance that
  is no longer finite stays so.
\<close>

definition dadd :: "real option \<Rightarrow> real \<Rightarrow> real option" where
  "dadd balance amount = (case balance of None \<Rightarrow> None | Some b \<Rightarrow> fl (b + amount))"

definition dsub :: "real option \<Rightarrow> real \<Rightarrow> real option" where
  "dsub balance amount = (case balance of None \<Rightarrow> None | Some b \<Rightarrow> fl (b - amount))"


section \<open>Account balances (AccountRegistry.tsx)\<close>

text \<open>
  The body of \<^verbatim>\<open>accounts.forEach\<close> for one account: start from the initial balance,
  walk the transactions of that account in order, add an income, subtract anything else.
\<close>

definition accountBalance :: "Account \<Rightarrow> Transaction list \<Rightarrow> real option" where
  "accountBalance acc txs =
     fold (\<lambda>t balance. if tx_type t = INCOME then dadd balance (tx_amount t)
                        else dsub balance (tx_amount t))
          (filter (\<lambda>t. tx_accountId t = acc_id acc) txs)
          (Some (acc_initialBalance acc))"

text \<open>The memoised table \<^verbatim>\<open>balances[acc.id] = balance\<close>, filled account by account.\<close>

definition accountBalances ::
  "Account list \<Rightarrow> Transaction list \<Rightarrow> (string \<rightharpoonup> real option)" where
  "accountBalances accs txs =
     fold (\<lambda>acc balances. balances(acc_id acc \<mapsto> accountBalance acc txs)) accs Map.empty"

text \<open>The sum the specification names: amounts of one type booked on one account.\<close>

definition sumOn :: "TransactionType \<Rightarrow> string \<Rightarrow> Transaction list \<Rightarrow> real" where
  "sumOn ty aid txs =
     sum_list (map tx_amount (filter (\<lambda>t. tx_type t = ty \<and> tx_accountId t = aid) txs))"

text \<open>
  No step of the walk is rounded: every running balance, computed exactly, is a double.
\<close>

fun unrounded :: "real \<Rightarrow> Transaction list \<Rightarrow> bool" where
  "unrounded b [] = True"
| "unrounded b (t # ts) =
     (let b' = (if tx_type t = INCOME then b + tx_amount t else b - tx_amount t)
      in fl b' = Some b' \<and> unrounded b' ts)"

definition exactFor :: "Account \<Rightarrow> Transaction list \<Rightarrow> bool" where
  "exactFor acc txs =
     unrounded (acc_initialBalance acc) (filter (\<lambda>t. tx_accountId t = acc_id acc) txs)"


section \<open>Dashboard metrics (Dashboard.tsx)\<close>

record Summary =
  income :: real
  expense :: real

definition summary :: "Transaction list \<Rightarrow> Summary" where
  "summary txs =
     fold (\<lambda>t acc. if tx_type t = INCOME then acc\<lparr>income := income acc + tx_amount t\<rparr>
                    else acc\<lparr>expense := expense acc + tx_amount t\<rparr>)
          txs \<lparr>income = 0, expense = 0\<rparr>"

text \<open>
  The three figures of \<^verbatim>\<open>performanceMetrics\<close>. The ranking of the top expense
  categories, computed in the same memo, is independent of them and is not modelled.
\<close>

record Metrics =
  grossMargin :: real
  breakevenProgress :: real
  gapToBreakeven :: real

definition performanceMetrics :: "Summary \<Rightarrow> Metrics" where
  "performanceMetrics s =
     (let revenue = income s;
          expenses = expense s
      in \<lparr>grossMargin = (if revenue > 0 then ((revenue - expenses) / revenue) * 100 else 0),
          breakevenProgress =
            (if expenses > 0 then min ((revenue / expenses) * 100) 100
             else (if revenue > 0 then 100 else 0)),
          gapToBreakeven = max 0 (expenses - revenue)\<rparr>)"


section \<open>Event handlers of App (App.tsx)\<close>

text \<open>
  \<^verbatim>\<open>updateData(updates)\<close> queues \<^verbatim>\<open>setData(prev => ({...prev, ...updates}))\<close>. The
  updates are built from \<^verbatim>\<open>data\<close>, the snapshot of the render that created the handler,
  and are merged into \<^verbatim>\<open>prev\<close>, the state at the time the queued update runs. Each handler
  below therefore takes both: \<open>data\<close> and \<open>prev\<close>. \<^verbatim>\<open>crypto.randomUUID()\<close> is the
  argument \<open>newId\<close>. An argument of type \<^verbatim>\<open>Omit<T, 'id'>\<close> is a record of \<open>T\<close> whose
  id field is overwritten, as the object spread does.
\<close>

definition handleAddTransaction :: "FarmData \<Rightarrow> string \<Rightarrow> Transaction \<Rightarrow> FarmData \<Rightarrow> FarmData" where
  "handleAddTransaction data newId t prev =
     prev\<lparr>transactions := transactions data @ [t\<lparr>tx_id := newId\<rparr>]\<rparr>"

definition handleUpdateTransaction :: "FarmData \<Rightarrow> Transaction \<Rightarrow> FarmData \<Rightarrow> FarmData" where
  "handleUpdateTransaction data t prev =
     prev\<lparr>transactions := map (\<lambda>x. if tx_id x = tx_id t then t else x) (transactions data)\<rparr>"

definition handleDeleteTransaction :: "FarmData \<Rightarrow> string \<Rightarrow> FarmData \<Rightarrow> FarmData" where
  "handleDeleteTransaction data i prev =
     prev\<lparr>transactions := filter (\<lambda>t. tx_id t \<noteq> i) (transactions data)\<rparr>"

definition handleRecordAnimalLog :: "string \<Rightarrow> AnimalLog \<Rightarrow> FarmData \<Rightarrow> FarmData" where
  "handleRecordAnimalLog newId l prev =
     (let isAdd = (log_type l = BOUGHT \<or> log_type l = BIRTH);
          changeAmount = (if isAdd then log_quantity l else - log_quantity l)
      in prev\<lparr>animalLogs := animalLogs prev @ [l\<lparr>log_id := newId\<rparr>],
              animalSpecies :=
                map (\<lambda>s. if sp_id s = log_speciesId l
                         then s\<lparr>sp_count := max 0 (sp_count s + changeAmount)\<rparr> else s)
                    (animalSpecies prev)\<rparr>)"

text \<open>The callbacks written inline in the routes.\<close>

definition onAddSpecies :: "FarmData \<Rightarrow> string \<Rightarrow> AnimalSpecies \<Rightarrow> FarmData \<Rightarrow> FarmData" where
  "onAddSpecies data newId s prev =
     prev\<lparr>animalSpecies := animalSpecies data @ [s\<lparr>sp_id := newId, sp_count := 0\<rparr>]\<rparr>"

definition onAddItem :: "FarmData \<Rightarrow> string \<Rightarrow> InventoryItem \<Rightarrow> FarmData \<Rightarrow> FarmData" where
  "onAddItem data newId i prev =
     prev\<lparr>inventoryItems := inventoryItems data @ [i\<lparr>item_id := newId, item_quantity := 0\<rparr>]\<rparr>"

definition onUpdateItem :: "FarmData \<Rightarrow> InventoryItem \<Rightarrow> FarmData \<Rightarrow> FarmData" where
  "onUpdateItem data i prev =
     prev\<lparr>inventoryItems := map (\<lambda>x. if item_id x = item_id i then i else x) (inventoryItems data)\<rparr>"

definition onRecordMovement :: "FarmData \<Rightarrow> string \<Rightarrow> InventoryMovement \<Rightarrow> FarmData \<Rightarrow> FarmData" where
  "onRecordMovement data newId m prev =
     prev\<lparr>inventoryMovements := inventoryMovements data @ [m\<lparr>mv_id := newId\<rparr>]\<rparr>"

definition onUpdateLiability :: "FarmData \<Rightarrow> Liability \<Rightarrow> FarmData \<Rightarrow> FarmData" where
  "onUpdateLiability data l prev =
     prev\<lparr>liabilities := map (\<lambda>x. if li_id x = li_id l then l else x) (liabilities data)\<rparr>"


section \<open>Recording a stock movement (InventoryManager.tsx)\<close>

record MovementForm =
  mf_itemId :: string
  mf_type :: MovementType
  mf_quantity :: real
  mf_note :: string
  mf_date :: string

text \<open>
  \<^verbatim>\<open>handleRecordMovement\<close>: look the item up among the \<^verbatim>\<open>items\<close> prop, return when it
  is missing, otherwise hand the movement, stamped with the item's unit cost, to the
  \<^verbatim>\<open>onRecordMovement\<close> callback of App.
\<close>

definition handleRecordMovement :: "FarmData \<Rightarrow> string \<Rightarrow> MovementForm \<Rightarrow> FarmData \<Rightarrow> FarmData" where
  "handleRecordMovement data newId newMovement prev =
     (case find (\<lambda>i. item_id i = mf_itemId newMovement) (inventoryItems data) of
        None \<Rightarrow> prev
      | Some item \<Rightarrow>
          onRecordMovement data newId
            \<lparr>mv_id = [], mv_itemId = mf_itemId newMovement, mv_type = mf_type newMovement,
             mv_quantity = mf_quantity newMovement, mv_note = mf_note newMovement,
             mv_date = mf_date newMovement, mv_unitCostAtTime = item_unitCost item\<rparr>
            prev)"

text \<open>The quantity the specification assigns to an item after a movement of \<open>qty\<close>.\<close>

definition movedQuantity :: "MovementType \<Rightarrow> real \<Rightarrow> real \<Rightarrow> real" where
  "movedQuantity ty quantity qty = max 0 (quantity + (if ty = IN then qty else - qty))"


section \<open>Recording a liability payment (LiabilityManager.tsx)\<close>





section \<open>Debt summary (Dashboard.tsx, LiabilityManager.tsx)\<close>

text \<open>
  A \<^verbatim>\<open>Date\<close> is its time value: milliseconds since 1970-01-01T00:00Z. The clock read
  by \<^verbatim>\<open>new Date()\<close> and the offset of local time from UTC are inputs. The offset is
  fixed (no daylight-saving change falls into the interval looked at).
\<close>

record Clock =
  nowMs :: int
  tzOffsetMs :: int

definition msPerDay :: int where
  "msPerDay = 86400000"

text \<open>\<^verbatim>\<open>new Date('YYYY-MM-DD')\<close>: a date-only string is read as midnight UTC of that day.\<close>

definition parseDateOnly :: "int \<Rightarrow> int" where
  "parseDateOnly day = day * msPerDay"

text \<open>The local calendar day a \<^verbatim>\<open>Date\<close> falls on, and its local time of day.\<close>

definition localDay :: "Clock \<Rightarrow> int \<Rightarrow> int" where
  "localDay c t = (t + tzOffsetMs c) div msPerDay"

definition localTimeOfDay :: "Clock \<Rightarrow> int \<Rightarrow> int" where
  "localTimeOfDay c t = (t + tzOffsetMs c) mod msPerDay"

text \<open>\<^verbatim>\<open>d.setHours(0, 0, 0, 0)\<close>: local midnight of the local day of \<open>d\<close>.\<close>

definition setHoursZero :: "Clock \<Rightarrow> int \<Rightarrow> int" where
  "setHoursZero c d = localDay c d * msPerDay - tzOffsetMs c"

text \<open>
  \<^verbatim>\<open>d.setDate(ref.getDate() + n)\<close> for \<open>d\<close> and \<open>ref\<close> in the same local month: the day
  of the month is taken from \<open>ref\<close> and moved on by \<open>n\<close>, running over into the
  following months; the local time of day of \<open>d\<close> is kept.
\<close>

definition setDateFrom :: "Clock \<Rightarrow> int \<Rightarrow> int \<Rightarrow> int \<Rightarrow> int" where
  "setDateFrom c d ref n = (localDay c ref + n) * msPerDay + localTimeOfDay c d - tzOffsetMs c"

text \<open>What a liability contributes to the amount due soon.\<close>

definition dueAmount :: "Liability \<Rightarrow> real" where
  "dueAmount l =
     (case li_installmentAmount l of
        None \<Rightarrow> li_currentBalance l
      | Some i \<Rightarrow> if i > 0 then min i (li_currentBalance l) else li_currentBalance l)"

text \<open>The predicate of \<^verbatim>\<open>liabilities.filter\<close> in both components.\<close>

definition isDueBy :: "int \<Rightarrow> Liability \<Rightarrow> bool" where
  "isDueBy thirtyDaysFromNow l =
     (case li_dueDate l of
        None \<Rightarrow> False
      | Some day \<Rightarrow>
          if li_currentBalance l \<le> 0 then False
          else parseDateOnly day \<le> thirtyDaysFromNow)"

record DebtSummary =
  totalOutstanding :: real
  upcoming :: "Liability list"
  totalAmountDueSoon :: real

definition debtSummary :: "Clock \<Rightarrow> Liability list \<Rightarrow> DebtSummary" where
  "debtSummary c ls =
     (let now = setHoursZero c (nowMs c);
          thirtyDaysFromNow = setDateFrom c (nowMs c) now 30;
          total = fold (\<lambda>l sum. sum + li_currentBalance l) ls 0;
          up = filter (isDueBy thirtyDaysFromNow) ls;
          dueSoon = fold (\<lambda>l sum. sum + dueAmount l) up 0
      in \<lparr>totalOutstanding = total, upcoming = up, totalAmountDueSoon = dueSoon\<rparr>)"

text \<open>\<^verbatim>\<open>stats.dueSoonCount\<close> of the liability page: the same filter, only counted.\<close>

definition dueSoonCount :: "Clock \<Rightarrow> Liability list \<Rightarrow> nat" where
  "dueSoonCount c ls =
     (let now = nowMs c;
          thirtyDaysFromNow = setDateFrom c (nowMs c) now 30
      in length (filter (isDueBy thirtyDaysFromNow) ls))"


section \<open>Backup export and import (Settings.tsx)\<close>

text \<open>
  The values a snapshot is made of at run time, and the syntax tree of a JSON text. The
  text itself, with its layout, is not modelled: a file is the tree it spells. A number
  is a finite real (the sign of zero is not kept apart), NaN or an infinity.
\<close>

datatype jsval =
  VUndefined | VNull | VBool bool | VNum real | VNaN | VInfinity bool
  | VStr string | VArr "jsval list" | VObj "(string \<times> jsval) list"

datatype json =
  JNull | JBool bool | JNumber real | JString string
  | JArray "json list" | JObject "(string \<times> json) list"

text \<open>
  \<^verbatim>\<open>JSON.stringify\<close>: a property whose value is \<^verbatim>\<open>undefined\<close> is left out,
  \<^verbatim>\<open>undefined\<close> in an array and the numbers that are not finite are written
  \<^verbatim>\<open>null\<close>; for \<^verbatim>\<open>undefined\<close> itself there is no text.
\<close>

fun serialize :: "jsval \<Rightarrow> json" where
  "serialize VUndefined = JNull"
| "serialize VNull = JNull"
| "serialize (VBool b) = JBool b"
| "serialize (VNum r) = JNumber r"
| "serialize VNaN = JNull"
| "serialize (VInfinity s) = JNull"
| "serialize (VStr s) = JString s"
| "serialize (VArr xs) = JArray (map serialize xs)"
| "serialize (VObj kvs) =
     JObject (map (\<lambda>(k, v). (k, serialize v)) (filter (\<lambda>(k, v). v \<noteq> VUndefined) kvs))"

definition stringify :: "jsval \<Rightarrow> json option" where
  "stringify v = (if v = VUndefined then None else Some (serialize v))"

text \<open>
  \<^verbatim>\<open>JSON.parse\<close> of a well-formed text. Where a key is written more than once in
  an object, the property keeps its place and takes the value written last.
\<close>

fun setProp :: "(string \<times> jsval) list \<Rightarrow> string \<Rightarrow> jsval \<Rightarrow> (string \<times> jsval) list" where
  "setProp [] k v = [(k, v)]"
| "setProp ((k', v') # kvs) k v =
     (if k' = k then (k', v) # kvs else (k', v') # setProp kvs k v)"

fun parse :: "json \<Rightarrow> jsval" where
  "parse JNull = VNull"
| "parse (JBool b) = VBool b"
| "parse (JNumber r) = VNum r"
| "parse (JString s) = VStr s"
| "parse (JArray xs) = VArr (map parse xs)"
| "parse (JObject kvs) = VObj (fold (\<lambda>(k, v) obj. setProp obj k (parse v)) kvs [])"

text \<open>
  A value JSON carries unchanged: nothing undefined and no number that is not finite in
  it, and no key twice in an object.
\<close>

fun carried :: "jsval \<Rightarrow> bool" where
  "carried VUndefined = False"
| "carried VNull = True"
| "carried (VBool b) = True"
| "carried (VNum r) = True"
| "carried VNaN = False"
| "carried (VInfinity s) = False"
| "carried (VStr s) = True"
| "carried (VArr xs) = list_all carried xs"
| "carried (VObj kvs) = (distinct (map fst kvs) \<and> list_all (\<lambda>(k, v). carried v) kvs)"


text \<open>
  Reading a property: \<^verbatim>\<open>undefined\<close> when it is not there. Reading from
  \<^verbatim>\<open>null\<close> throws and is dealt with where it can happen.
\<close>

definition getProp :: "jsval \<Rightarrow> string \<Rightarrow> jsval" where
  "getProp obj k =
     (case obj of
        VObj kvs \<Rightarrow> (case map_of kvs k of None \<Rightarrow> VUndefined | Some v \<Rightarrow> v)
      | _ \<Rightarrow> VUndefined)"

text \<open>What \<^verbatim>\<open>!v\<close> negates.\<close>

definition truthy :: "jsval \<Rightarrow> bool" where
  "truthy v =
     (case v of
        VUndefined \<Rightarrow> False | VNull \<Rightarrow> False | VBool b \<Rightarrow> b | VNum r \<Rightarrow> r \<noteq> 0
      | VNaN \<Rightarrow> False | VInfinity s \<Rightarrow> True | VStr s \<Rightarrow> s \<noteq> []
      | VArr xs \<Rightarrow> True | VObj kvs \<Rightarrow> True)"

text \<open>
  \<^verbatim>\<open>handleExport\<close>: the props of Settings are the fields of App's \<^verbatim>\<open>data\<close>, spread
  into it, and \<^verbatim>\<open>user\<close>. The file offered for download holds the text of
  \<^verbatim>\<open>backupData\<close>.
\<close>

definition backupData :: "jsval \<Rightarrow> string \<Rightarrow> jsval \<Rightarrow> jsval" where
  "backupData user isoNow props =
     VObj [(''version'', VStr ''1.3''),
           (''timestamp'', VStr isoNow),
           (''user'', user),
           (''transactions'', getProp props ''transactions''),
           (''categories'', getProp props ''categories''),
           (''accounts'', getProp props ''accounts''),
           (''animalSpecies'', getProp props ''animalSpecies''),
           (''animalLogs'', getProp props ''animalLogs''),
           (''inventoryItems'', getProp props ''inventoryItems''),
           (''inventoryMovements'', getProp props ''inventoryMovements''),
           (''assets'', getProp props ''assets''),
           (''liabilities'', getProp props ''liabilities''),
           (''sidebarConfig'', getProp props ''sidebarConfig''),
           (''isSidebarCollapsed'', getProp props ''isSidebarCollapsed'')]"

definition handleExport :: "jsval \<Rightarrow> string \<Rightarrow> jsval \<Rightarrow> json option" where
  "handleExport user isoNow props = stringify (backupData user isoNow props)"

text \<open>
  The state of Settings this handler writes, and the messages it shows with
  \<^verbatim>\<open>alert\<close>. The component renders neither \<^verbatim>\<open>importError\<close> nor
  \<^verbatim>\<open>isImporting\<close>.
\<close>

record SettingsState =
  importError :: "string option"
  isImporting :: bool
  alerts :: "string list"

text \<open>
  \<^verbatim>\<open>handleImport\<close>. The chosen file is \<open>None\<close> when the dialog was closed without one;
  otherwise its content either fails to parse (\<open>Inl\<close> the message of the exception) or
  is a JSON text. A text that reads \<^verbatim>\<open>null\<close> makes the property access throw a
  TypeError, whose message depends on the engine and is the argument
  \<open>typeErrorMessage\<close>. \<open>confirmed\<close> is the answer to \<^verbatim>\<open>window.confirm\<close>. The callback
  \<^verbatim>\<open>onImportData\<close> acts on the state \<open>app\<close> of its owner.
\<close>

definition handleImport ::
  "(jsval \<Rightarrow> 'a \<Rightarrow> 'a) \<Rightarrow> string \<Rightarrow> bool \<Rightarrow> (string + json) option \<Rightarrow> 'a \<times> SettingsState
     \<Rightarrow> 'a \<times> SettingsState" where
  "handleImport onImportData typeErrorMessage confirmed file s =
     (case file of
        None \<Rightarrow> s
      | Some content \<Rightarrow>
          (let app = fst s;
               st = (snd s)\<lparr>isImporting := True, importError := None\<rparr>
           in case content of
                Inl syntaxErrorMessage \<Rightarrow>
                  (app, st\<lparr>importError := Some syntaxErrorMessage, isImporting := False\<rparr>)
              | Inr text \<Rightarrow>
                  (let data = parse text
                   in if data = VNull
                      then (app, st\<lparr>importError := Some typeErrorMessage, isImporting := False\<rparr>)
                      else if \<not> truthy (getProp data ''transactions'')
                              \<or> \<not> truthy (getProp data ''categories'')
                      then (app, st\<lparr>importError := Some ''Invalid backup file format.'',
                                    isImporting := False\<rparr>)
                      else if confirmed
                      then (onImportData data app,
                            st\<lparr>alerts := alerts st @ [''Data restored successfully!''],
                               isImporting := False\<rparr>)
                      else (app, st\<lparr>isImporting := False\<rparr>))))"

text \<open>
  App passes \<^verbatim>\<open>onImportData={setData}\<close>: the object read from the file becomes the
  state as it is. In this part the state of App is that object.
\<close>

definition setData :: "jsval \<Rightarrow> jsval \<Rightarrow> jsval" where
  "setData d prev = d"

text \<open>The eleven fields of \<^verbatim>\<open>FarmData\<close>.\<close>

definition farmDataKeys :: "string list" where
  "farmDataKeys = [''transactions'', ''categories'', ''accounts'', ''animalSpecies'',
     ''animalLogs'', ''inventoryItems'', ''inventoryMovements'', ''assets'', ''liabilities'',
     ''sidebarConfig'', ''isSidebarCollapsed'']"



section \<open>Debounced push to the cloud (App.tsx)\<close>

text \<open>
  Time is counted in milliseconds. A pending \<^verbatim>\<open>setTimeout\<close> is its id, the time it
  is due, and what its callback closes over: the email and the \<^verbatim>\<open>data\<close> of the render
  that scheduled it, the two arguments of \<^verbatim>\<open>ApiService.pushData\<close>.
\<close>

record Timer =
  tm_id :: nat
  tm_due :: nat
  tm_email :: string
  tm_data :: FarmData

text \<open>
  The state the effect works on: the \<^verbatim>\<open>user\<close> and \<^verbatim>\<open>data\<close> of App, the pending
  timers of the page, \<^verbatim>\<open>syncTimeoutRef.current\<close>, whether the last run of the effect
  returned a cleanup, and the calls of \<^verbatim>\<open>pushData\<close> made so far, in order.
\<close>

record Sync =
  app_user :: "User option"
  app_data :: FarmData
  clock_ms :: nat
  pending :: "Timer list"
  nextTimerId :: nat
  syncTimeoutRef :: "nat option"
  hasCleanup :: bool
  pushed :: "(string \<times> FarmData) list"

definition clearTimeout :: "nat \<Rightarrow> Sync \<Rightarrow> Sync" where
  "clearTimeout i s = s\<lparr>pending := filter (\<lambda>tm. tm_id tm \<noteq> i) (pending s)\<rparr>"

text \<open>
  \<^verbatim>\<open>if (syncTimeoutRef.current) clearTimeout(syncTimeoutRef.current)\<close>. A timer id is
  never falsy, so the test fails only while the ref is still \<^verbatim>\<open>null\<close>.
\<close>

definition clearPending :: "Sync \<Rightarrow> Sync" where
  "clearPending s = (case syncTimeoutRef s of None \<Rightarrow> s | Some i \<Rightarrow> clearTimeout i s)"

text \<open>
  One run of the effect with the dependencies \<^verbatim>\<open>[data, user]\<close>: first the cleanup the
  previous run returned, if it returned one, then the body, which returns early without
  a user and otherwise clears the pending timer and schedules the push 2000 ms ahead.
\<close>

definition syncEffect :: "Sync \<Rightarrow> Sync" where
  "syncEffect s =
     (let s1 = (if hasCleanup s then clearPending s else s)
      in case app_user s1 of
           None \<Rightarrow> s1\<lparr>hasCleanup := False\<rparr>
         | Some u \<Rightarrow>
             (let s2 = clearPending s1;
                  i = nextTimerId s2
              in s2\<lparr>pending := pending s2 @
                        [\<lparr>tm_id = i, tm_due = clock_ms s2 + 2000,
                          tm_email = user_email u, tm_data = app_data s2\<rparr>],
                     nextTimerId := i + 1,
                     syncTimeoutRef := Some i,
                     hasCleanup := True\<rparr>))"

text \<open>
  A local mutation is a state update \<^verbatim>\<open>setData(prev => ...)\<close>; a logout is
  \<^verbatim>\<open>setUser(null)\<close>. Either changes a dependency, so the effect runs after it.
\<close>

datatype Event = Mutate "FarmData \<Rightarrow> FarmData" | Logout

fun step :: "Event \<Rightarrow> Sync \<Rightarrow> Sync" where
  "step (Mutate f) s = syncEffect (s\<lparr>app_data := f (app_data s)\<rparr>)"
| "step Logout s = syncEffect (s\<lparr>app_user := None\<rparr>)"

text \<open>Letting time pass until \<open>t\<close>: the timers due by then fire, each calling the push.\<close>

definition advance :: "nat \<Rightarrow> Sync \<Rightarrow> Sync" where
  "advance t s =
     s\<lparr>clock_ms := t,
       pending := filter (\<lambda>tm. \<not> tm_due tm \<le> t) (pending s),
       pushed := pushed s @ map (\<lambda>tm. (tm_email tm, tm_data tm))
                              (filter (\<lambda>tm. tm_due tm \<le> t) (pending s))\<rparr>"

text \<open>A timed run: before each event, time passes until the moment of the event.\<close>

fun run :: "(nat \<times> Event) list \<Rightarrow> Sync \<Rightarrow> Sync" where
  "run [] s = s"
| "run ((t, e) # evs) s = run evs (step e (advance t s))"

text \<open>Each event of the list comes less than 2000 ms after the one before it.\<close>

fun windowed :: "nat \<Rightarrow> (nat \<times> 'a) list \<Rightarrow> bool" where
  "windowed t [] = True"
| "windowed t ((t', e) # evs) = (t \<le> t' \<and> t' < t + 2000 \<and> windowed t' evs)"

text \<open>
  Every pending timer is the one the ref holds, and a cleanup is registered whenever a
  timer is pending. \<open>armed em t s\<close> says a single push of the current data for \<open>em\<close>
  is pending, due 2000 ms after \<open>t\<close>.
\<close>

definition tracked :: "Sync \<Rightarrow> bool" where
  "tracked s =
     ((\<forall>tm \<in> set (pending s). syncTimeoutRef s = Some (tm_id tm))
      \<and> (pending s \<noteq> [] \<longrightarrow> hasCleanup s))"

definition armed :: "string \<Rightarrow> nat \<Rightarrow> Sync \<Rightarrow> bool" where
  "armed em t s =
     (\<exists>i. pending s = [\<lparr>tm_id = i, tm_due = t + 2000, tm_email = em, tm_data = app_data s\<rparr>]
          \<and> syncTimeoutRef s = Some i \<and> hasCleanup s)"

definition mutations :: "(nat \<times> (FarmData \<Rightarrow> FarmData)) list \<Rightarrow> (nat \<times> Event) list" where
  "mutations ms = map (\<lambda>(t, f). (t, Mutate f)) ms"

definition lastTime :: "nat \<Rightarrow> (nat \<times> 'a) list \<Rightarrow> nat" where
  "lastTime t ms = (if ms = [] then t else fst (last ms))"

definition applyAll :: "(nat \<times> (FarmData \<Rightarrow> FarmData)) list \<Rightarrow> FarmData \<Rightarrow> FarmData" where
  "applyAll ms d = fold (\<lambda>(t, f). f) ms d"


section \<open>The state changes of App (App.tsx)\<close>

text \<open>The remaining callbacks written inline in the routes.\<close>

definition onAddAccount :: "FarmData \<Rightarrow> string \<Rightarrow> Account \<Rightarrow> FarmData \<Rightarrow> FarmData" where
  "onAddAccount data newId a prev = prev\<lparr>accounts := accounts data @ [a\<lparr>acc_id := newId\<rparr>]\<rparr>"

definition onUpdateAccount :: "FarmData \<Rightarrow> Account \<Rightarrow> FarmData \<Rightarrow> FarmData" where
  "onUpdateAccount data a prev =
     prev\<lparr>accounts := map (\<lambda>x. if acc_id x = acc_id a then a else x) (accounts data)\<rparr>"

definition onDeleteAccount :: "FarmData \<Rightarrow> string \<Rightarrow> FarmData \<Rightarrow> FarmData" where
  "onDeleteAccount data i prev = prev\<lparr>accounts := filter (\<lambda>x. acc_id x \<noteq> i) (accounts data)\<rparr>"

definition onUpdateSpecies :: "FarmData \<Rightarrow> AnimalSpecies \<Rightarrow> FarmData \<Rightarrow> FarmData" where
  "onUpdateSpecies data s prev =
     prev\<lparr>animalSpecies := map (\<lambda>x. if sp_id x = sp_id s then s else x) (animalSpecies data)\<rparr>"

definition onDeleteSpecies :: "FarmData \<Rightarrow> string \<Rightarrow> FarmData \<Rightarrow> FarmData" where
  "onDeleteSpecies data i prev =
     prev\<lparr>animalSpecies := filter (\<lambda>x. sp_id x \<noteq> i) (animalSpecies data)\<rparr>"

definition onDeleteItem :: "FarmData \<Rightarrow> string \<Rightarrow> FarmData \<Rightarrow> FarmData" where
  "onDeleteItem data i prev =
     prev\<lparr>inventoryItems := filter (\<lambda>x. item_id x \<noteq> i) (inventoryItems data)\<rparr>"

definition onAddAsset :: "FarmData \<Rightarrow> string \<Rightarrow> Asset \<Rightarrow> FarmData \<Rightarrow> FarmData" where
  "onAddAsset data newId a prev = prev\<lparr>assets := assets data @ [a\<lparr>as_id := newId\<rparr>]\<rparr>"

definition onDeleteAsset :: "FarmData \<Rightarrow> string \<Rightarrow> FarmData \<Rightarrow> FarmData" where
  "onDeleteAsset data i prev = prev\<lparr>assets := filter (\<lambda>x. as_id x \<noteq> i) (assets data)\<rparr>"

definition onUpdateAsset :: "FarmData \<Rightarrow> Asset \<Rightarrow> FarmData \<Rightarrow> FarmData" where
  "onUpdateAsset data a prev =
     prev\<lparr>assets := map (\<lambda>x. if as_id x = as_id a then a else x) (assets data)\<rparr>"

definition onAddLiability :: "FarmData \<Rightarrow> string \<Rightarrow> Liability \<Rightarrow> FarmData \<Rightarrow> FarmData" where
  "onAddLiability data newId l prev =
     prev\<lparr>liabilities := liabilities data @ [l\<lparr>li_id := newId\<rparr>]\<rparr>"

definition onDeleteLiability :: "FarmData \<Rightarrow> string \<Rightarrow> FarmData \<Rightarrow> FarmData" where
  "onDeleteLiability data i prev =
     prev\<lparr>liabilities := filter (\<lambda>x. li_id x \<noteq> i) (liabilities data)\<rparr>"

definition onAddCategory :: "FarmData \<Rightarrow> string \<Rightarrow> Category \<Rightarrow> FarmData \<Rightarrow> FarmData" where
  "onAddCategory data newId c prev =
     prev\<lparr>categories := categories data @ [c\<lparr>cat_id := newId\<rparr>]\<rparr>"

definition onUpdateCategory :: "FarmData \<Rightarrow> Category \<Rightarrow> FarmData \<Rightarrow> FarmData" where
  "onUpdateCategory data c prev =
     prev\<lparr>categories := map (\<lambda>x. if cat_id x = cat_id c then c else x) (categories data)\<rparr>"

definition onDeleteCategory :: "FarmData \<Rightarrow> string \<Rightarrow> FarmData \<Rightarrow> FarmData" where
  "onDeleteCategory data i prev =
     prev\<lparr>categories := filter (\<lambda>x. cat_id x \<noteq> i) (categories data)\<rparr>"

definition onUpdateSidebar :: "NavItemConfig list \<Rightarrow> FarmData \<Rightarrow> FarmData" where
  "onUpdateSidebar cfg prev = prev\<lparr>sidebarConfig := cfg\<rparr>"

definition onToggleCollapse :: "FarmData \<Rightarrow> FarmData \<Rightarrow> FarmData" where
  "onToggleCollapse data prev = prev\<lparr>isSidebarCollapsed := \<not> isSidebarCollapsed data\<rparr>"

text \<open>
  \<^verbatim>\<open>setData(cloudData)\<close> after a pull, and \<^verbatim>\<open>onImportData={setData}\<close> for a restored
  backup or a manual pull: the snapshot handed in replaces the state.
\<close>

definition replaceData :: "FarmData \<Rightarrow> FarmData \<Rightarrow> FarmData" where
  "replaceData d prev = d"

text \<open>
  Every way in which App changes \<^verbatim>\<open>data\<close>, one constructor for each call of
  \<^verbatim>\<open>setData\<close> or \<^verbatim>\<open>updateData\<close>; a string that comes last is the fresh id.
\<close>

datatype AppEvent =
    AddTransaction Transaction string
  | UpdateTransaction Transaction
  | DeleteTransaction string
  | RecordAnimalLog AnimalLog string
  | AddAccount Account string
  | UpdateAccount Account
  | DeleteAccount string
  | AddSpecies AnimalSpecies string
  | UpdateSpecies AnimalSpecies
  | DeleteSpecies string
  | AddItem InventoryItem string
  | UpdateItem InventoryItem
  | RecordMovement InventoryMovement string
  | DeleteItem string
  | AddAsset Asset string
  | DeleteAsset string
  | UpdateAsset Asset
  | AddLiability Liability string
  | DeleteLiability string
  | UpdateLiability Liability
  | AddCategory Category string
  | UpdateCategory Category
  | DeleteCategory string
  | UpdateSidebar "NavItemConfig list"
  | ToggleCollapse
  | ReplaceData FarmData

text \<open>The state after an event whose handler was created in, and is applied to, the state \<open>d\<close>.\<close>

fun appStep :: "AppEvent \<Rightarrow> FarmData \<Rightarrow> FarmData" where
  "appStep (AddTransaction t newId) d = handleAddTransaction d newId t d"
| "appStep (UpdateTransaction t) d = handleUpdateTransaction d t d"
| "appStep (DeleteTransaction i) d = handleDeleteTransaction d i d"
| "appStep (RecordAnimalLog l newId) d = handleRecordAnimalLog newId l d"
| "appStep (AddAccount a newId) d = onAddAccount d newId a d"
| "appStep (UpdateAccount a) d = onUpdateAccount d a d"
| "appStep (DeleteAccount i) d = onDeleteAccount d i d"
| "appStep (AddSpecies s newId) d = onAddSpecies d newId s d"
| "appStep (UpdateSpecies s) d = onUpdateSpecies d s d"
| "appStep (DeleteSpecies i) d = onDeleteSpecies d i d"
| "appStep (AddItem i newId) d = onAddItem d newId i d"
| "appStep (UpdateItem i) d = onUpdateItem d i d"
| "appStep (RecordMovement m newId) d = onRecordMovement d newId m d"
| "appStep (DeleteItem i) d = onDeleteItem d i d"
| "appStep (AddAsset a newId) d = onAddAsset d newId a d"
| "appStep (DeleteAsset i) d = onDeleteAsset d i d"
| "appStep (UpdateAsset a) d = onUpdateAsset d a d"
| "appStep (AddLiability l newId) d = onAddLiability d newId l d"
| "appStep (DeleteLiability i) d = onDeleteLiability d i d"
| "appStep (UpdateLiability l) d = onUpdateLiability d l d"
| "appStep (AddCategory c newId) d = onAddCategory d newId c d"
| "appStep (UpdateCategory c) d = onUpdateCategory d c d"
| "appStep (DeleteCategory i) d = onDeleteCategory d i d"
| "appStep (UpdateSidebar cfg) d = onUpdateSidebar cfg d"
| "appStep ToggleCollapse d = onToggleCollapse d d"
| "appStep (ReplaceData new) d = replaceData new d"

text \<open>A logged event or an explicit edit of a species or an item; a replacement of the snapshot.\<close>

fun isLogOrEdit :: "AppEvent \<Rightarrow> bool" where
  "isLogOrEdit (RecordAnimalLog l newId) = True"
| "isLogOrEdit (RecordMovement m newId) = True"
| "isLogOrEdit (UpdateSpecies s) = True"
| "isLogOrEdit (UpdateItem i) = True"
| "isLogOrEdit e = False"

fun isReplacement :: "AppEvent \<Rightarrow> bool" where
  "isReplacement (ReplaceData new) = True"
| "isReplacement e = False"


section \<open>Sample data\<close>

definition emptyData :: FarmData where
  "emptyData = \<lparr>transactions = [], categories = [], accounts = [], animalSpecies = [],
     animalLogs = [], inventoryItems = [], inventoryMovements = [], assets = [],
     liabilities = [], sidebarConfig = [], isSidebarCollapsed = False\<rparr>"

definition cashAccount :: Account where
  "cashAccount = \<lparr>acc_id = ''a1'', acc_name = ''Till'', acc_type = CASH, acc_initialBalance = 100\<rparr>"

definition milkSale :: Transaction where
  "milkSale = \<lparr>tx_id = ''t1'', tx_date = ''2024-03-01'', tx_description = ''Milk'',
     tx_amount = 50, tx_categoryId = ''c1'', tx_accountId = ''a1'', tx_type = INCOME\<rparr>"

definition feedBill :: Transaction where
  "feedBill = \<lparr>tx_id = ''t2'', tx_date = ''2024-03-02'', tx_description = ''Feed'',
     tx_amount = 30, tx_categoryId = ''c2'', tx_accountId = ''a1'', tx_type = EXPENSE\<rparr>"

definition emptyTill :: Account where
  "emptyTill = cashAccount\<lparr>acc_initialBalance := 0\<rparr>"

definition hugeSale :: Transaction where
  "hugeSale = milkSale\<lparr>tx_amount := 9007199254740992\<rparr>"

definition unitSale :: Transaction where
  "unitSale = milkSale\<lparr>tx_amount := 1\<rparr>"

definition hugeBill :: Transaction where
  "hugeBill = feedBill\<lparr>tx_amount := 9007199254740992\<rparr>"

definition cow :: AnimalSpecies where
  "cow = \<lparr>sp_id = ''s1'', sp_name = ''Cow'', sp_tag = ''C'', sp_breed = ''Angus'',
     sp_count = 10, sp_estimatedValue = 900\<rparr>"


definition hay :: InventoryItem where
  "hay = \<lparr>item_id = ''i1'', item_name = ''Hay'', item_sku = ''H-1'', item_description = [],
     item_quantity = 0, item_unitCost = 4, item_assetTerm = SHORT_TERM\<rparr>"

definition hayIn :: MovementForm where
  "hayIn = \<lparr>mf_itemId = ''i1'', mf_type = IN, mf_quantity = 5, mf_note = [],
     mf_date = ''2024-03-04''\<rparr>"

definition tractorLoan :: Liability where
  "tractorLoan = \<lparr>li_id = ''l1'', li_name = ''Tractor'', li_category = LOAN,
     li_originalAmount = 500, li_currentBalance = 100, li_interestRate = 5,
     li_dueDate = None, li_installmentAmount = None, li_paymentFrequency = None,
     li_description = []\<rparr>"






definition herdData :: FarmData where
  "herdData = emptyData\<lparr>animalSpecies := [cow]\<rparr>"

definition hayData :: FarmData where
  "hayData = emptyData\<lparr>inventoryItems := [hay]\<rparr>"



text \<open>
  Two clocks. On 2024-01-01 (day 19723) at 01:00 in a zone two hours ahead of UTC, the
  time value is 2023-12-31T23:00Z; at 20:00 in a zone five hours behind UTC it is
  2024-01-02T01:00Z.
\<close>

definition aheadOfUtc :: Clock where
  "aheadOfUtc = \<lparr>nowMs = 19723 * 86400000 - 3600000, tzOffsetMs = 7200000\<rparr>"

definition behindUtc :: Clock where
  "behindUtc = \<lparr>nowMs = 19724 * 86400000 + 3600000, tzOffsetMs = - 18000000\<rparr>"

definition loanDue :: "int \<Rightarrow> Liability" where
  "loanDue day = tractorLoan\<lparr>li_dueDate := Some day\<rparr>"

definition farmer :: User where
  "farmer = \<lparr>user_name = ''Ann'', user_email = ''ann@farm.example''\<rparr>"

definition idle :: SettingsState where
  "idle = \<lparr>importError = None, isImporting = False, alerts = []\<rparr>"

definition farmerJs :: jsval where
  "farmerJs = VObj [(''name'', VStr ''Ann''), (''email'', VStr ''ann@farm.example'')]"

text \<open>
  A snapshot with one liability, as the liability form saves it, the amount due being a
  number or, when the field was left empty, what \<^verbatim>\<open>parseFloat('')\<close> returns.
\<close>

definition loanJs :: "jsval \<Rightarrow> jsval" where
  "loanJs amountDue =
     VObj [(''id'', VStr ''l1''), (''name'', VStr ''Tractor''), (''category'', VStr ''LOAN''),
           (''originalAmount'', VNum 500), (''currentBalance'', VNum 100),
           (''interestRate'', VNum 5), (''dueDate'', VStr []),
           (''installmentAmount'', amountDue), (''paymentFrequency'', VStr ''MONTHLY''),
           (''description'', VStr [])]"

definition snapshotJs :: "jsval \<Rightarrow> jsval" where
  "snapshotJs amountDue =
     VObj [(''transactions'', VArr []), (''categories'', VArr []), (''accounts'', VArr []),
           (''animalSpecies'', VArr []), (''animalLogs'', VArr []),
           (''inventoryItems'', VArr []), (''inventoryMovements'', VArr []),
           (''assets'', VArr []), (''liabilities'', VArr [loanJs amountDue]),
           (''sidebarConfig'', VArr []), (''isSidebarCollapsed'', VBool False)]"

definition noCategoriesFile :: json where
  "noCategoriesFile = JObject [(''version'', JString ''1.3''), (''transactions'', JArray [])]"

definition signedIn :: Sync where
  "signedIn = \<lparr>app_user = Some farmer, app_data = emptyData, clock_ms = 0, pending = [],
     nextTimerId = 1, syncTimeoutRef = None, hasCleanup = False, pushed = []\<rparr>"

definition addCow :: "FarmData \<Rightarrow> FarmData" where
  "addCow d = onAddSpecies d ''s1'' cow d"

definition addHay :: "FarmData \<Rightarrow> FarmData" where
  "addHay d = onAddItem d ''i1'' hay d"

definition collapse :: "FarmData \<Rightarrow> FarmData" where
  "collapse d = d\<lparr>isSidebarCollapsed := \<not> isSidebarCollapsed d\<rparr>"


section \<open>Double-precision arithmetic: results\<close>

lemma binade_eqI:
  assumes "2 powi e \<le> \<bar>x\<bar>" "\<bar>x\<bar> < 2 powi (e + 1)" "- 1022 \<le> e"
  shows "binade x = e"
proof -
  have "(0::real) < 2 powi e"
    by simp
  then have pos: "0 < \<bar>x\<bar>"
    using assms(1) by linarith
  have p1: "2 powr (real_of_int e) = (2::real) powi e"
    by (simp add: powr_real_of_int')
  have p2: "2 powr (real_of_int e + 1) = (2::real) powi (e + 1)"
    using powr_real_of_int' [of 2 "e + 1"] by simp
  have lo: "real_of_int e \<le> log 2 \<bar>x\<bar>"
    using assms(1) pos by (simp add: le_log_iff p1)
  have hi: "log 2 \<bar>x\<bar> < real_of_int e + 1"
    using assms(2) pos by (simp add: log_less_iff p2)
  have "\<lfloor>log 2 \<bar>x\<bar>\<rfloor> = e"
    using lo hi by (rule floor_unique)
  then show ?thesis
    using assms(3) by (simp add: binade_def)
qed

lemma roundHalfEven_of_int: "roundHalfEven (of_int n) = n"
  by (simp add: roundHalfEven_def)

text \<open>A number with a significand of at most 53 bits in the range of the format is a double.\<close>

lemma fl_representable:
  assumes x: "x = of_int m * 2 powi k"
    and m: "\<bar>m\<bar> < 2 ^ 53"
    and k: "- 1074 \<le> k"
    and fin: "\<bar>x\<bar> \<le> maxDouble"
  shows "fl x = Some x"
proof (cases "x = 0")
  case True
  then show ?thesis by (simp add: fl_def)
next
  case False
  then have pos: "0 < \<bar>x\<bar>" by simp
  have "\<bar>x\<bar> = of_int \<bar>m\<bar> * 2 powi k"
    by (simp add: x abs_mult)
  also have "\<dots> < 2 ^ 53 * 2 powi k"
  proof -
    have "real_of_int \<bar>m\<bar> < 2 ^ 53"
      using m by (metis of_int_less_iff of_int_numeral of_int_power)
    then show ?thesis by (simp add: mult_strict_right_mono)
  qed
  also have "\<dots> = 2 powi (53 + k)"
    by (simp add: power_int_add)
  finally have lt: "\<bar>x\<bar> < 2 powi (53 + k)" .
  have "(2::real) powr (real_of_int (53 + k)) = 2 powi (53 + k)"
    using powr_real_of_int' [of "2::real" "53 + k"] by simp
  then have "\<bar>x\<bar> < 2 powr (real_of_int (53 + k))"
    using lt by simp
  then have "log 2 \<bar>x\<bar> < real_of_int (53 + k)"
    using pos by (subst log_less_iff) simp_all
  then have "\<lfloor>log 2 \<bar>x\<bar>\<rfloor> < 53 + k"
    by (simp add: floor_less_iff)
  then have u: "binade x - 52 \<le> k"
    using k by (simp add: binade_def)
  define u where "u = binade x - 52"
  define j where "j = nat (k - u)"
  have kj: "k = u + int j"
    using u by (simp add: j_def u_def)
  have "x / 2 powi u = of_int m * (2 powi k / 2 powi u)"
    by (simp add: x)
  also have "2 powi k / 2 powi u = (2::real) ^ j"
    by (simp add: kj power_int_add)
  finally have q: "x / 2 powi u = of_int (m * 2 ^ j)"
    by simp
  have "of_int (roundHalfEven (x / ulp x)) * ulp x = (x / 2 powi u) * 2 powi u"
    unfolding ulp_def u_def [symmetric] q by (simp only: roundHalfEven_of_int)
  also have "\<dots> = x"
    by simp
  finally have r: "of_int (roundHalfEven (x / ulp x)) * ulp x = x" .
  show ?thesis
    using False fin by (simp add: fl_def Let_def r)
qed

lemma fl_of_int:
  assumes "\<bar>n\<bar> \<le> 2 ^ 53"
  shows "fl (of_int n) = Some (of_int n)"
proof (cases "\<bar>n\<bar> < 2 ^ 53")
  case True
  have "\<bar>real_of_int n\<bar> \<le> 2 ^ 53"
    using assms by (metis of_int_abs of_int_le_iff of_int_numeral of_int_power)
  then have "\<bar>real_of_int n\<bar> \<le> maxDouble"
    by (simp add: maxDouble_def)
  then show ?thesis
    using True by (intro fl_representable [where m = n and k = 0]) simp_all
next
  case False
  then have "\<bar>n\<bar> = 2 ^ 53" using assms by simp
  then have n: "n = 2 ^ 53 \<or> n = - (2 ^ 53)" by (simp add: abs_if split: if_splits)
  have "fl (of_int n) = Some (of_int n)" if "n = 2 ^ 53 \<or> n = - (2 ^ 53)"
    using that
    by (intro fl_representable [where m = "n div 2" and k = 1]) (auto simp add: maxDouble_def)
  then show ?thesis using n by simp
qed

text \<open>Halfway between two doubles: 2^53 + 1 goes to the even neighbour 2^53.\<close>

lemma fl_tie_to_even: "fl 9007199254740993 = Some 9007199254740992"
proof -
  have "binade 9007199254740993 = 53"
    by (rule binade_eqI) simp_all
  then show ?thesis
    by (simp add: fl_def ulp_def roundHalfEven_def maxDouble_def)
qed

lemma fl_two_to_53: "fl 9007199254740992 = Some 9007199254740992"
  using fl_of_int [of 9007199254740992] by simp

lemma fl_one: "fl 1 = Some 1"
  using fl_of_int [of 1] by simp

lemma fl_zero: "fl 0 = Some 0"
  by (simp add: fl_def)


section \<open>Account balances: results\<close>

lemma fold_unrounded:
  assumes "unrounded b txs"
  shows "fold (\<lambda>t balance. if tx_type t = INCOME then dadd balance (tx_amount t)
                             else dsub balance (tx_amount t)) txs (Some b)
       = Some (b + sum_list (map tx_amount (filter (\<lambda>t. tx_type t = INCOME) txs))
                 - sum_list (map tx_amount (filter (\<lambda>t. tx_type t = EXPENSE) txs)))"
  using assms
proof (induction txs arbitrary: b)
  case Nil
  show ?case by simp
next
  case (Cons t txs)
  show ?case
  proof (cases "tx_type t")
    case INCOME
    then have "fl (b + tx_amount t) = Some (b + tx_amount t)" "unrounded (b + tx_amount t) txs"
      using Cons.prems by (simp_all add: Let_def)
    then show ?thesis
      using INCOME Cons.IH [of "b + tx_amount t"] by (simp add: dadd_def)
  next
    case EXPENSE
    then have "fl (b - tx_amount t) = Some (b - tx_amount t)" "unrounded (b - tx_amount t) txs"
      using Cons.prems by (simp_all add: Let_def)
    then show ?thesis
      using EXPENSE Cons.IH [of "b - tx_amount t"] by (simp add: dsub_def)
  qed
qed

lemma filter_type_on:
  "filter (\<lambda>t. tx_type t = ty) (filter (\<lambda>t. tx_accountId t = aid) T)
     = filter (\<lambda>t. tx_type t = ty \<and> tx_accountId t = aid) T"
  by (induction T) simp_all

lemma accountBalance_sumOn:
  assumes "exactFor A T"
  shows "accountBalance A T
       = Some (acc_initialBalance A + sumOn INCOME (acc_id A) T - sumOn EXPENSE (acc_id A) T)"
  using fold_unrounded [OF assms [unfolded exactFor_def]]
  unfolding accountBalance_def sumOn_def filter_type_on .

lemma sum_list_mset_cong:
  fixes xs ys :: "real list"
  shows "mset xs = mset ys \<Longrightarrow> sum_list xs = sum_list ys"
  by (metis sum_mset_sum_list)

lemma sumOn_mset:
  assumes "mset T' = mset T"
  shows "sumOn ty aid T' = sumOn ty aid T"
  unfolding sumOn_def
  by (rule sum_list_mset_cong) (simp add: assms)

lemma accountBalances_lookup:
  "accountBalances accs T aid =
     (case filter (\<lambda>a. acc_id a = aid) accs of
        [] \<Rightarrow> None
      | _ \<Rightarrow> Some (accountBalance (last (filter (\<lambda>a. acc_id a = aid) accs)) T))"
proof -
  have gen: "\<And>m. fold (\<lambda>acc balances. balances(acc_id acc \<mapsto> accountBalance acc T)) accs m aid =
     (case filter (\<lambda>a. acc_id a = aid) accs of
        [] \<Rightarrow> m aid
      | _ \<Rightarrow> Some (accountBalance (last (filter (\<lambda>a. acc_id a = aid) accs)) T))"
  proof (induction accs)
    case Nil
    show ?case by simp
  next
    case (Cons a accs)
    show ?case
      using Cons.IH [of "m(acc_id a \<mapsto> accountBalance a T)"]
      by (auto split: list.splits)
  qed
  show ?thesis
    unfolding accountBalances_def using gen [of Map.empty] by (simp split: list.splits)
qed

lemma filter_id_distinct:
  assumes "A \<in> set accs" "distinct (map acc_id accs)"
  shows "filter (\<lambda>a. acc_id a = acc_id A) accs = [A]"
  using assms
proof (induction accs)
  case Nil
  then show ?case by simp
next
  case (Cons a accs)
  show ?case
  proof (cases "a = A")
    case True
    have "acc_id A \<notin> acc_id ` set accs"
      using Cons.prems(2) True by simp
    then have "\<forall>x\<in>set accs. acc_id x \<noteq> acc_id A"
      by (metis imageI)
    then have "filter (\<lambda>a. acc_id a = acc_id A) accs = []"
      by (simp add: filter_empty_conv)
    then show ?thesis using True by simp
  next
    case False
    then have "A \<in> set accs" using Cons.prems by simp
    moreover have "acc_id a \<noteq> acc_id A"
      using Cons.prems False \<open>A \<in> set accs\<close> by auto
    ultimately show ?thesis using Cons by simp
  qed
qed

text \<open>
  Whole amounts stay exact: with a whole initial balance and whole amounts whose
  absolute values add up to no more than 2^53, no step is rounded, in any order.
\<close>

lemma unrounded_whole:
  assumes "b \<in> \<int>" "\<forall>t \<in> set txs. tx_amount t \<in> \<int>"
    and "\<bar>b\<bar> + sum_list (map (\<lambda>t. \<bar>tx_amount t\<bar>) txs) \<le> 2 ^ 53"
  shows "unrounded b txs"
  using assms
proof (induction txs arbitrary: b)
  case Nil
  show ?case by simp
next
  case (Cons t txs)
  define b' where "b' = (if tx_type t = INCOME then b + tx_amount t else b - tx_amount t)"
  have whole: "b' \<in> \<int>"
    using Cons.prems(1,2) by (simp add: b'_def)
  have le: "\<bar>b'\<bar> \<le> \<bar>b\<bar> + \<bar>tx_amount t\<bar>"
    by (simp add: b'_def abs_triangle_ineq abs_triangle_ineq4)
  have rest: "0 \<le> sum_list (map (\<lambda>t. \<bar>tx_amount t\<bar>) txs)"
    by (rule sum_list_nonneg) auto
  have bound: "\<bar>b'\<bar> + sum_list (map (\<lambda>t. \<bar>tx_amount t\<bar>) txs) \<le> 2 ^ 53"
    using le Cons.prems(3) by simp
  obtain n where n: "b' = of_int n"
    using whole by (auto elim: Ints_cases)
  have "\<bar>real_of_int n\<bar> \<le> 2 ^ 53"
    using bound rest n by simp
  then have "\<bar>n\<bar> \<le> 2 ^ 53"
    by (metis of_int_abs of_int_le_iff of_int_numeral of_int_power)
  then have "fl b' = Some b'"
    unfolding n by (rule fl_of_int)
  moreover have "unrounded b' txs"
    using whole Cons.prems(2) bound by (intro Cons.IH) simp_all
  ultimately show ?case
    by (simp add: b'_def Let_def)
qed

lemma exactFor_whole:
  assumes "acc_initialBalance A \<in> \<int>" "\<forall>t \<in> set T. tx_amount t \<in> \<int>"
    and "\<bar>acc_initialBalance A\<bar> + sum_list (map (\<lambda>t. \<bar>tx_amount t\<bar>) T) \<le> 2 ^ 53"
  shows "exactFor A T"
proof -
  let ?on = "filter (\<lambda>t. tx_accountId t = acc_id A) T"
  have "sum_list (map (\<lambda>t. \<bar>tx_amount t\<bar>) ?on) \<le> sum_list (map (\<lambda>t. \<bar>tx_amount t\<bar>) T)"
    by (induction T) (auto intro: add_increasing)
  then have "\<bar>acc_initialBalance A\<bar> + sum_list (map (\<lambda>t. \<bar>tx_amount t\<bar>) ?on) \<le> 2 ^ 53"
    using assms(3) by simp
  then show ?thesis
    unfolding exactFor_def using assms(1,2) by (intro unrounded_whole) simp_all
qed

text \<open>
  C4, as stated, fails: the additions are those of doubles. An income of 2^53, an income
  of 1 and an expense of 2^53 on an empty account leave 0 in this order and 1 when the
  expense comes second; the sum of the claim is 1.
\<close>

theorem accountBalance_order_counterexample:
  "mset [hugeSale, hugeBill, unitSale] = mset [hugeSale, unitSale, hugeBill]
   \<and> accountBalance emptyTill [hugeSale, unitSale, hugeBill] = Some 0
   \<and> accountBalance emptyTill [hugeSale, hugeBill, unitSale] = Some 1
   \<and> acc_initialBalance emptyTill
       + sumOn INCOME (acc_id emptyTill) [hugeSale, unitSale, hugeBill]
       - sumOn EXPENSE (acc_id emptyTill) [hugeSale, unitSale, hugeBill] = 1"
proof -
  have perm: "mset [hugeSale, hugeBill, unitSale] = mset [hugeSale, unitSale, hugeBill]"
    by (simp add: add_mset_commute)
  have a: "accountBalance emptyTill [hugeSale, unitSale, hugeBill] = Some 0"
    by (simp add: accountBalance_def emptyTill_def cashAccount_def hugeSale_def unitSale_def
        hugeBill_def milkSale_def feedBill_def dadd_def dsub_def
        fl_zero fl_two_to_53 fl_tie_to_even)
  have b: "accountBalance emptyTill [hugeSale, hugeBill, unitSale] = Some 1"
    by (simp add: accountBalance_def emptyTill_def cashAccount_def hugeSale_def unitSale_def
        hugeBill_def milkSale_def feedBill_def dadd_def dsub_def
        fl_zero fl_two_to_53 fl_one)
  have c: "acc_initialBalance emptyTill
       + sumOn INCOME (acc_id emptyTill) [hugeSale, unitSale, hugeBill]
       - sumOn EXPENSE (acc_id emptyTill) [hugeSale, unitSale, hugeBill] = 1"
    by (simp add: sumOn_def emptyTill_def cashAccount_def hugeSale_def unitSale_def
        hugeBill_def milkSale_def feedBill_def)
  show ?thesis
    using perm a b c by simp
qed

text \<open>
  C4, amended. The balance derived for an account is the sum taken in the order of the
  list in double-precision arithmetic. Whenever no addition or subtraction on the way is
  rounded, it equals the initial balance plus the income amounts booked on the account
  minus the expense amounts booked on it, and it is the same for every reordering of the
  transactions for which that holds as well. It is the entry stored under the account's
  id in the balance table when the ids of the accounts are pairwise different.
\<close>

theorem accountBalance_derived:
  "(exactFor A T \<longrightarrow>
      accountBalance A T
        = Some (acc_initialBalance A + sumOn INCOME (acc_id A) T - sumOn EXPENSE (acc_id A) T))
   \<and> (exactFor A T \<and> exactFor A T' \<and> mset T' = mset T \<longrightarrow>
        accountBalance A T' = accountBalance A T)
   \<and> (A \<in> set accs \<and> distinct (map acc_id accs) \<longrightarrow>
        accountBalances accs T (acc_id A) = Some (accountBalance A T))"
proof (intro conjI impI)
  assume "exactFor A T"
  then show "accountBalance A T
     = Some (acc_initialBalance A + sumOn INCOME (acc_id A) T - sumOn EXPENSE (acc_id A) T)"
    by (rule accountBalance_sumOn)
next
  assume a: "exactFor A T \<and> exactFor A T' \<and> mset T' = mset T"
  then have "sumOn INCOME (acc_id A) T' = sumOn INCOME (acc_id A) T"
    and "sumOn EXPENSE (acc_id A) T' = sumOn EXPENSE (acc_id A) T"
    by (simp_all add: sumOn_mset [of T' T])
  then show "accountBalance A T' = accountBalance A T"
    using a by (simp add: accountBalance_sumOn)
next
  assume "A \<in> set accs \<and> distinct (map acc_id accs)"
  then have "filter (\<lambda>a. acc_id a = acc_id A) accs = [A]"
    using filter_id_distinct [of A accs] by blast
  then show "accountBalances accs T (acc_id A) = Some (accountBalance A T)"
    by (simp add: accountBalances_lookup)
qed

theorem accountBalance_derived_witness:
  "exactFor cashAccount [milkSale, feedBill] \<and> exactFor cashAccount [feedBill, milkSale]
   \<and> mset [feedBill, milkSale] = mset [milkSale, feedBill]
   \<and> cashAccount \<in> set [cashAccount] \<and> distinct (map acc_id [cashAccount])
   \<and> accountBalance cashAccount [milkSale, feedBill] = Some (100 + 50 - 30)
   \<and> accountBalance cashAccount [feedBill, milkSale] = accountBalance cashAccount [milkSale, feedBill]
   \<and> accountBalances [cashAccount] [milkSale, feedBill] (acc_id cashAccount)
       = Some (accountBalance cashAccount [milkSale, feedBill])"
proof -
  have whole: "acc_initialBalance cashAccount \<in> \<int>" "tx_amount milkSale \<in> \<int>"
    "tx_amount feedBill \<in> \<int>"
    by (simp_all add: cashAccount_def milkSale_def feedBill_def)
  have small: "\<bar>acc_initialBalance cashAccount\<bar> + (\<bar>tx_amount milkSale\<bar> + \<bar>tx_amount feedBill\<bar>)
      \<le> 2 ^ 53"
    by (simp add: cashAccount_def milkSale_def feedBill_def)
  have e1: "exactFor cashAccount [milkSale, feedBill]"
    using whole small by (intro exactFor_whole) simp_all
  have e2: "exactFor cashAccount [feedBill, milkSale]"
    using whole small by (intro exactFor_whole) simp_all
  have perm: "mset [feedBill, milkSale] = mset [milkSale, feedBill]"
    by (simp add: add_mset_commute)
  have sums: "sumOn INCOME (acc_id cashAccount) [milkSale, feedBill] = 50"
    "sumOn EXPENSE (acc_id cashAccount) [milkSale, feedBill] = 30"
    by (simp_all add: sumOn_def cashAccount_def milkSale_def feedBill_def)
  have init: "acc_initialBalance cashAccount = 100"
    by (simp add: cashAccount_def)
  show ?thesis
    using accountBalance_derived
      [of cashAccount "[milkSale, feedBill]" "[feedBill, milkSale]" "[cashAccount]"]
      e1 e2 perm sums init
    by simp
qed


section \<open>Dashboard metrics: results\<close>

lemma summary_empty: "summary [] = \<lparr>income = 0, expense = 0\<rparr>"
  by (simp add: summary_def)

text \<open>
  C5, as stated, fails on its first case: with no income and no expense the breakeven
  progress is 0, not 100.
\<close>

theorem breakeven_zero_zero_counterexample:
  "summary [] = \<lparr>income = 0, expense = 0\<rparr>
   \<and> breakevenProgress (performanceMetrics \<lparr>income = 0, expense = 0\<rparr>) = 0
   \<and> breakevenProgress (performanceMetrics \<lparr>income = 0, expense = 0\<rparr>) \<noteq> 100"
  by (simp add: performanceMetrics_def summary_empty)

text \<open>
  C5, amended. With income 0 and expense 0 the gross margin is 0 and the breakeven
  progress is 0; with income 0 and expense 100 the gross margin is 0, the breakeven
  progress is 0 and the gap to breakeven is 100; with income 100 and expense 0 the gross
  margin is 100, the breakeven progress is 100 and the gap to breakeven is 0.
\<close>

theorem performanceMetrics_boundaries:
  "performanceMetrics \<lparr>income = 0, expense = 0\<rparr>
     = \<lparr>grossMargin = 0, breakevenProgress = 0, gapToBreakeven = 0\<rparr>
   \<and> performanceMetrics \<lparr>income = 0, expense = 100\<rparr>
     = \<lparr>grossMargin = 0, breakevenProgress = 0, gapToBreakeven = 100\<rparr>
   \<and> performanceMetrics \<lparr>income = 100, expense = 0\<rparr>
     = \<lparr>grossMargin = 100, breakevenProgress = 100, gapToBreakeven = 0\<rparr>"
  by (simp add: performanceMetrics_def)


section \<open>Animal logs: results\<close>





section \<open>New species and new items: results\<close>

lemma added_start_at_zero:
  "animalSpecies (onAddSpecies data newId s prev)
     = animalSpecies data @ [s\<lparr>sp_id := newId, sp_count := 0\<rparr>]
   \<and> sp_count (last (animalSpecies (onAddSpecies data newId s prev))) = 0
   \<and> inventoryItems (onAddItem data newId' i prev)
     = inventoryItems data @ [i\<lparr>item_id := newId', item_quantity := 0\<rparr>]
   \<and> item_quantity (last (inventoryItems (onAddItem data newId' i prev))) = 0"
  by (simp add: onAddSpecies_def onAddItem_def)

lemma others_keep_levels:
  assumes "\<not> isLogOrEdit e" "\<not> isReplacement e"
  shows "\<forall>s \<in> set (animalSpecies (appStep e d)). sp_count s \<noteq> 0 \<longrightarrow> s \<in> set (animalSpecies d)"
    and "\<forall>i \<in> set (inventoryItems (appStep e d)). item_quantity i \<noteq> 0 \<longrightarrow> i \<in> set (inventoryItems d)"
  using assms
  by (cases e; simp add: handleAddTransaction_def handleUpdateTransaction_def
      handleDeleteTransaction_def onAddAccount_def onUpdateAccount_def onDeleteAccount_def
      onAddSpecies_def onDeleteSpecies_def onAddItem_def onDeleteItem_def onAddAsset_def
      onDeleteAsset_def onUpdateAsset_def onAddLiability_def onDeleteLiability_def
      onUpdateLiability_def onAddCategory_def onUpdateCategory_def onDeleteCategory_def
      onUpdateSidebar_def onToggleCollapse_def)+

text \<open>
  C10, as stated, fails in its last part: a pull from the cloud or a restored backup
  replaces the snapshot, and the species it brings has its count without any log or
  edit.
\<close>

theorem replaced_snapshot_counterexample:
  "\<not> isLogOrEdit (ReplaceData herdData)
   \<and> animalSpecies emptyData = []
   \<and> animalLogs (appStep (ReplaceData herdData) emptyData) = []
   \<and> animalSpecies (appStep (ReplaceData herdData) emptyData) = [cow]
   \<and> sp_count cow = 10"
  by (simp add: replaceData_def herdData_def emptyData_def cow_def)

text \<open>
  C10, amended. A species added through \<^verbatim>\<open>onAddSpecies\<close> and an item added through
  \<^verbatim>\<open>onAddItem\<close> are appended with a count, respectively a quantity, of exactly 0,
  whatever the record handed in carries in that field. After any change of the state
  other than a logged event, an explicit edit of a species or an item, or a replacement
  of the whole snapshot (a pull or a restored backup), every species with a count other
  than 0 and every item with a quantity other than 0 was in the state as it is before
  the change.
\<close>

theorem added_records_start_at_zero:
  "animalSpecies (onAddSpecies data newId s prev)
     = animalSpecies data @ [s\<lparr>sp_id := newId, sp_count := 0\<rparr>]
   \<and> sp_count (last (animalSpecies (onAddSpecies data newId s prev))) = 0
   \<and> inventoryItems (onAddItem data newId' i prev)
     = inventoryItems data @ [i\<lparr>item_id := newId', item_quantity := 0\<rparr>]
   \<and> item_quantity (last (inventoryItems (onAddItem data newId' i prev))) = 0
   \<and> (\<not> isLogOrEdit e \<and> \<not> isReplacement e \<longrightarrow>
        (\<forall>s \<in> set (animalSpecies (appStep e d)). sp_count s \<noteq> 0 \<longrightarrow> s \<in> set (animalSpecies d))
        \<and> (\<forall>i \<in> set (inventoryItems (appStep e d)).
              item_quantity i \<noteq> 0 \<longrightarrow> i \<in> set (inventoryItems d)))"
  using added_start_at_zero [of data newId s prev newId' i] others_keep_levels [of e d]
  by blast

theorem added_records_start_at_zero_witness:
  "\<not> isLogOrEdit (AddSpecies cow ''s2'') \<and> \<not> isReplacement (AddSpecies cow ''s2'')
   \<and> sp_count cow = 10
   \<and> animalSpecies (appStep (AddSpecies cow ''s2'') herdData) = [cow, cow\<lparr>sp_id := ''s2'', sp_count := 0\<rparr>]
   \<and> cow \<in> set (animalSpecies herdData)
   \<and> inventoryItems (appStep (AddSpecies cow ''s2'') herdData) = []"
  using added_records_start_at_zero [of herdData "''s2''" cow herdData "''i2''" hay "AddSpecies cow ''s2''" herdData]
  by (simp add: onAddSpecies_def herdData_def emptyData_def cow_def)


section \<open>Stock movements: results\<close>

lemma handleRecordMovement_items:
  "inventoryItems (handleRecordMovement data newId m prev) = inventoryItems prev"
  by (simp add: handleRecordMovement_def onRecordMovement_def split: option.split)

text \<open>
  C2 does not hold of the code. Five units of hay are moved in: the movement is appended,
  the stock of hay stays at 0, where the specification asks for 5.
\<close>

theorem handleRecordMovement_leaves_quantity:
  "find (\<lambda>i. item_id i = mf_itemId hayIn) (inventoryItems hayData) = Some hay
   \<and> map mv_itemId (inventoryMovements (handleRecordMovement hayData ''m1'' hayIn hayData)) = [''i1'']
   \<and> map item_quantity (inventoryItems (handleRecordMovement hayData ''m1'' hayIn hayData)) = [0]
   \<and> movedQuantity (mf_type hayIn) (item_quantity hay) (mf_quantity hayIn) = 5"
  by (simp add: handleRecordMovement_def onRecordMovement_def movedQuantity_def
      hayData_def hay_def hayIn_def emptyData_def)


section \<open>Liability payments: results\<close>







section \<open>Debt summary: results\<close>

lemma fold_add_sum_list:
  fixes f :: "'a \<Rightarrow> real"
  shows "fold (\<lambda>x sum. sum + f x) xs a = a + sum_list (map f xs)"
  by (induction xs arbitrary: a) simp_all

lemma localDay_setHoursZero: "localDay c (setHoursZero c t) = localDay c t"
  by (simp add: localDay_def setHoursZero_def msPerDay_def)

lemma setDateFrom_now: "setDateFrom c t (setHoursZero c t) n = t + n * msPerDay"
  unfolding setDateFrom_def localDay_setHoursZero
  unfolding localDay_def localTimeOfDay_def
  by (simp add: algebra_simps)

lemma setDateFrom_self: "setDateFrom c t t n = t + n * msPerDay"
  unfolding setDateFrom_def localDay_def localTimeOfDay_def
  by (simp add: algebra_simps)

lemma upcoming_eq:
  "upcoming (debtSummary c ls) = filter (isDueBy (nowMs c + 30 * msPerDay)) ls"
  by (simp add: debtSummary_def Let_def setDateFrom_now)

lemma dueSoonCount_eq:
  "dueSoonCount c ls = length (upcoming (debtSummary c ls))"
  by (simp add: dueSoonCount_def Let_def setDateFrom_self upcoming_eq)

lemma isDueBy_iff:
  "isDueBy t l \<longleftrightarrow>
     0 < li_currentBalance l \<and> (\<exists>day. li_dueDate l = Some day \<and> day * msPerDay \<le> t)"
  by (auto simp add: isDueBy_def parseDateOnly_def split: option.split)

text \<open>A liability without a positive balance is never among the upcoming ones.\<close>

lemma upcoming_positive_balance:
  assumes "l \<in> set (upcoming (debtSummary c ls))"
  shows "0 < li_currentBalance l"
  using assms by (simp add: upcoming_eq isDueBy_iff)

text \<open>The amount due soon is the sum of the amounts due of the upcoming liabilities.\<close>

lemma totalAmountDueSoon_sum:
  "totalAmountDueSoon (debtSummary c ls) = sum_list (map dueAmount (upcoming (debtSummary c ls)))"
  by (simp add: debtSummary_def Let_def fold_add_sum_list)

text \<open>
  Where local time is UTC, the window closes between the thirtieth and the thirty-first
  day after today.
\<close>

lemma upcoming_boundary_utc:
  assumes utc: "tzOffsetMs c = 0"
    and l: "l \<in> set ls" "0 < li_currentBalance l"
  shows "li_dueDate l = Some (localDay c (nowMs c) + 30) \<Longrightarrow> l \<in> set (upcoming (debtSummary c ls))"
    and "li_dueDate l = Some (localDay c (nowMs c) + 31) \<Longrightarrow> l \<notin> set (upcoming (debtSummary c ls))"
proof -
  have lo: "localDay c (nowMs c) * msPerDay \<le> nowMs c"
    using utc by (simp add: localDay_def msPerDay_def)
  have hi: "nowMs c < (localDay c (nowMs c) + 1) * msPerDay"
    using utc by (simp add: localDay_def msPerDay_def algebra_simps)
  show "li_dueDate l = Some (localDay c (nowMs c) + 30) \<Longrightarrow> l \<in> set (upcoming (debtSummary c ls))"
    using l lo by (simp add: upcoming_eq isDueBy_iff algebra_simps)
  show "li_dueDate l = Some (localDay c (nowMs c) + 31) \<Longrightarrow> l \<notin> set (upcoming (debtSummary c ls))"
    using l hi by (simp add: upcoming_eq isDueBy_iff algebra_simps)
qed

text \<open>
  C6 does not hold of the code away from UTC. Shortly after local midnight in a zone
  ahead of UTC, a liability with a positive balance due exactly 30 days after today is
  left out; in the evening in a zone behind UTC, one due 31 days after today is taken in.
\<close>

theorem debtSummary_local_time_failure:
  "localDay aheadOfUtc (nowMs aheadOfUtc) = 19723
   \<and> li_dueDate (loanDue (19723 + 30)) = Some (19723 + 30)
   \<and> 0 < li_currentBalance (loanDue (19723 + 30))
   \<and> upcoming (debtSummary aheadOfUtc [loanDue (19723 + 30)]) = []
   \<and> dueSoonCount aheadOfUtc [loanDue (19723 + 30)] = 0
   \<and> localDay behindUtc (nowMs behindUtc) = 19723
   \<and> upcoming (debtSummary behindUtc [loanDue (19723 + 31)]) = [loanDue (19723 + 31)]
   \<and> dueSoonCount behindUtc [loanDue (19723 + 31)] = 1"
  by (simp add: dueSoonCount_eq upcoming_eq isDueBy_def parseDateOnly_def localDay_def
      msPerDay_def aheadOfUtc_def behindUtc_def loanDue_def tractorLoan_def)


section \<open>Backup export and import: results\<close>

lemma setProp_fresh:
  assumes "k \<notin> fst ` set obj"
  shows "setProp obj k v = obj @ [(k, v)]"
  using assms by (induction obj) auto

lemma fold_setProp_distinct:
  assumes "distinct (map fst kvs)" "fst ` set kvs \<inter> fst ` set obj = {}"
  shows "fold (\<lambda>(k, v) obj. setProp obj k (f v)) kvs obj = obj @ map (\<lambda>(k, v). (k, f v)) kvs"
  using assms
proof (induction kvs arbitrary: obj)
  case Nil
  show ?case by simp
next
  case (Cons kv kvs)
  obtain k v where kv: "kv = (k, v)" by (cases kv)
  have fresh: "k \<notin> fst ` set obj"
    using Cons.prems(2) kv by auto
  have d: "distinct (map fst kvs)" and nk: "k \<notin> fst ` set kvs"
    using Cons.prems(1) kv by simp_all
  have disj: "fst ` set kvs \<inter> fst ` set (obj @ [(k, f v)]) = {}"
    using Cons.prems(2) nk by auto
  show ?case
    using Cons.IH [OF d disj] by (simp add: kv setProp_fresh [OF fresh])
qed

lemma parse_object_distinct:
  assumes "distinct (map fst kvs)"
  shows "parse (JObject kvs) = VObj (map (\<lambda>(k, v). (k, parse v)) kvs)"
  using fold_setProp_distinct [OF assms, of "[]" parse] by simp

lemma distinct_serialized:
  assumes "distinct (map fst kvs)"
  shows "distinct (map fst (map (\<lambda>(k, v). (k, serialize v)) (filter (\<lambda>(k, v). v \<noteq> VUndefined) kvs)))"
proof -
  have "map fst (map (\<lambda>(k, v). (k, serialize v)) (filter (\<lambda>(k, v). v \<noteq> VUndefined) kvs))
      = map fst (filter (\<lambda>(k, v). v \<noteq> VUndefined) kvs)"
    by (induction kvs) auto
  moreover have "distinct (map fst (filter (\<lambda>(k, v). v \<noteq> VUndefined) kvs))"
    using assms by (rule distinct_map_filter)
  ultimately show ?thesis
    by (simp only:)
qed

lemma parse_serialize: "carried v \<Longrightarrow> parse (serialize v) = v"
proof (induction v)
  case (VArr xs)
  then show ?case by (simp add: list_all_iff map_idI)
next
  case (VObj kvs)
  have d: "distinct (map fst kvs)"
    using VObj.prems by simp
  have nu: "filter (\<lambda>(k, v). v \<noteq> VUndefined) kvs = kvs"
    using VObj.prems by (auto simp add: list_all_iff filter_id_conv)
  have each: "parse (serialize v) = v" if "(k, v) \<in> set kvs" for k v
  proof -
    have "carried v"
      using VObj.prems that by (auto simp add: list_all_iff)
    moreover have "v \<in> Basic_BNFs.snds (k, v)"
      by simp
    ultimately show ?thesis
      using VObj.IH that by blast
  qed
  have m: "map ((\<lambda>(k, v). (k, parse v)) \<circ> (\<lambda>(k, v). (k, serialize v))) kvs = kvs"
    by (rule map_idI) (auto simp add: each)
  have "parse (serialize (VObj kvs)) = parse (JObject (map (\<lambda>(k, v). (k, serialize v)) kvs))"
    by (simp add: nu)
  also have "\<dots> = VObj (map (\<lambda>(k, v). (k, parse v)) (map (\<lambda>(k, v). (k, serialize v)) kvs))"
    using distinct_serialized [OF d] unfolding nu by (rule parse_object_distinct)
  also have "\<dots> = VObj kvs"
    using m by simp
  finally show ?case .
qed simp_all

lemma map_of_filter_snd:
  assumes "distinct (map fst kvs)"
  shows "map_of (filter (\<lambda>(k, v). P v) kvs) k
       = (case map_of kvs k of None \<Rightarrow> None | Some v \<Rightarrow> if P v then Some v else None)"
  using assms
proof (induction kvs)
  case Nil
  then show ?case by simp
next
  case (Cons kv kvs)
  obtain k' v' where kv: "kv = (k', v')" by (cases kv)
  have notin: "k' \<notin> fst ` set kvs" using Cons.prems kv by simp
  then have none: "map_of kvs k' = None" by (simp add: map_of_eq_None_iff)
  show ?case
    using Cons kv none by (auto split: option.split)
qed

lemma map_of_map_snd:
  "map_of (map (\<lambda>(k, v). (k, f v)) kvs) k = map_option f (map_of kvs k)"
  by (induction kvs) auto

lemma getProp_reparsed:
  assumes "distinct (map fst kvs)"
  shows "getProp (parse (serialize (VObj kvs))) k
       = (case map_of kvs k of
            None \<Rightarrow> VUndefined
          | Some v \<Rightarrow> if v = VUndefined then VUndefined else parse (serialize v))"
proof -
  let ?kept = "filter (\<lambda>(k, v). v \<noteq> VUndefined) kvs"
  have "parse (serialize (VObj kvs))
      = VObj (map (\<lambda>(k, v). (k, parse v)) (map (\<lambda>(k, v). (k, serialize v)) ?kept))"
    using distinct_serialized [OF assms] by (simp only: serialize.simps parse_object_distinct)
  then have "getProp (parse (serialize (VObj kvs))) k
      = (case map_of (map (\<lambda>(k, v). (k, parse v)) (map (\<lambda>(k, v). (k, serialize v)) ?kept)) k of
           None \<Rightarrow> VUndefined | Some v \<Rightarrow> v)"
    by (simp add: getProp_def del: map_map)
  also have "map_of (map (\<lambda>(k, v). (k, parse v)) (map (\<lambda>(k, v). (k, serialize v)) ?kept)) k
      = map_option parse (map_option serialize (map_of ?kept k))"
    by (simp only: map_of_map_snd)
  also have "map_of ?kept k
      = (case map_of kvs k of None \<Rightarrow> None | Some v \<Rightarrow> if v \<noteq> VUndefined then Some v else None)"
    by (rule map_of_filter_snd [OF assms])
  finally show ?thesis
    by (cases "map_of kvs k") simp_all
qed

lemma carried_getProp:
  assumes "carried S"
  shows "getProp S k = VUndefined \<or> carried (getProp S k)"
proof (cases S)
  case (VObj kvs)
  show ?thesis
  proof (cases "map_of kvs k")
    case None
    then show ?thesis using VObj by (simp add: getProp_def)
  next
    case (Some v)
    then have "(k, v) \<in> set kvs" by (rule map_of_SomeD)
    then have "carried v" using assms VObj by (auto simp add: list_all_iff)
    then show ?thesis using VObj Some by (simp add: getProp_def)
  qed
qed (simp_all add: getProp_def)

lemma reparse_getProp:
  assumes "carried S"
  shows "(if getProp S k = VUndefined then VUndefined else parse (serialize (getProp S k))) = getProp S k"
  using carried_getProp [OF assms, of k] by (auto simp add: parse_serialize)

lemma backup_keys: "distinct (map fst
    [(''version'', a1), (''timestamp'', a2), (''user'', a3), (''transactions'', a4),
     (''categories'', a5), (''accounts'', a6), (''animalSpecies'', a7), (''animalLogs'', a8),
     (''inventoryItems'', a9), (''inventoryMovements'', a10), (''assets'', a11),
     (''liabilities'', a12), (''sidebarConfig'', a13), (''isSidebarCollapsed'', a14)])"
  by simp

lemma getProp_backup:
  "getProp (parse (serialize (backupData u ts S))) k
     = (case map_of
          [(''version'', VStr ''1.3''), (''timestamp'', VStr ts), (''user'', u),
           (''transactions'', getProp S ''transactions''),
           (''categories'', getProp S ''categories''),
           (''accounts'', getProp S ''accounts''),
           (''animalSpecies'', getProp S ''animalSpecies''),
           (''animalLogs'', getProp S ''animalLogs''),
           (''inventoryItems'', getProp S ''inventoryItems''),
           (''inventoryMovements'', getProp S ''inventoryMovements''),
           (''assets'', getProp S ''assets''),
           (''liabilities'', getProp S ''liabilities''),
           (''sidebarConfig'', getProp S ''sidebarConfig''),
           (''isSidebarCollapsed'', getProp S ''isSidebarCollapsed'')] k of
          None \<Rightarrow> VUndefined
        | Some v \<Rightarrow> if v = VUndefined then VUndefined else parse (serialize v))"
  unfolding backupData_def by (rule getProp_reparsed [OF backup_keys])

lemma reparsed_backup:
  assumes "carried S" "carried u"
  shows "getProp (parse (serialize (backupData u ts S))) ''version'' = VStr ''1.3''"
    and "getProp (parse (serialize (backupData u ts S))) ''timestamp'' = VStr ts"
    and "getProp (parse (serialize (backupData u ts S))) ''user'' = u"
    and "\<forall>k \<in> set farmDataKeys. getProp (parse (serialize (backupData u ts S))) k = getProp S k"
proof -
  have u: "u \<noteq> VUndefined" "parse (serialize u) = u"
    using assms(2) by (auto simp add: parse_serialize)
  note r = reparse_getProp [OF assms(1)]
  show "getProp (parse (serialize (backupData u ts S))) ''version'' = VStr ''1.3''"
    by (simp add: getProp_backup)
  show "getProp (parse (serialize (backupData u ts S))) ''timestamp'' = VStr ts"
    by (simp add: getProp_backup)
  show "getProp (parse (serialize (backupData u ts S))) ''user'' = u"
    by (simp add: getProp_backup u)
  show "\<forall>k \<in> set farmDataKeys. getProp (parse (serialize (backupData u ts S))) k = getProp S k"
    unfolding farmDataKeys_def
    by (simp add: getProp_backup r)
qed

lemma handleImport_accepts:
  assumes "truthy (getProp (parse text) ''transactions'')" "truthy (getProp (parse text) ''categories'')"
  shows "handleImport setData msg True (Some (Inr text)) (app, st)
       = (parse text,
          st\<lparr>isImporting := False, importError := None,
             alerts := alerts st @ [''Data restored successfully!'']\<rparr>)"
proof -
  have "parse text \<noteq> VNull"
    using assms(1) by (auto simp add: getProp_def truthy_def)
  then show ?thesis
    using assms by (simp add: handleImport_def setData_def Let_def)
qed

lemma handleExport_text: "handleExport u ts S = Some (serialize (backupData u ts S))"
proof -
  have "backupData u ts S \<noteq> VUndefined"
    by (simp add: backupData_def)
  then show ?thesis
    by (simp add: handleExport_def stringify_def)
qed

text \<open>
  C8, as stated, fails. A liability saved with the amount due left empty holds NaN, which
  the file carries as null: the liabilities read from the file differ from those exported. And
  for a snapshot that JSON carries unchanged, the state after the import is not that
  snapshot but the backup object, with its version, timestamp and user.
\<close>

theorem import_export_counterexample:
  "handleExport farmerJs ''2024-03-06T08:00:00.000Z'' (snapshotJs VNaN)
     = Some (serialize (backupData farmerJs ''2024-03-06T08:00:00.000Z'' (snapshotJs VNaN)))
   \<and> getProp (snapshotJs VNaN) ''liabilities'' = VArr [loanJs VNaN]
   \<and> getProp (fst (handleImport setData ''TypeError'' True
         (Some (Inr (serialize (backupData farmerJs ''2024-03-06T08:00:00.000Z'' (snapshotJs VNaN)))))
         (snapshotJs VNaN, idle))) ''liabilities'' = VArr [loanJs VNull]
   \<and> loanJs VNull \<noteq> loanJs VNaN
   \<and> fst (handleImport setData ''TypeError'' True
         (Some (Inr (serialize (backupData farmerJs ''2024-03-06T08:00:00.000Z'' (snapshotJs (VNum 25))))))
         (snapshotJs (VNum 25), idle)) \<noteq> snapshotJs (VNum 25)"
proof -
  let ?ts = "''2024-03-06T08:00:00.000Z''"
  have ok: "truthy (getProp (parse (serialize (backupData farmerJs ?ts (snapshotJs v)))) ''transactions'')"
    "truthy (getProp (parse (serialize (backupData farmerJs ?ts (snapshotJs v)))) ''categories'')" for v
    by (simp_all add: getProp_backup) (simp_all add: getProp_def snapshotJs_def truthy_def)
  have lia: "getProp (snapshotJs v) ''liabilities'' = VArr [loanJs v]" for v
    by (simp add: getProp_def snapshotJs_def)
  have reread: "getProp (parse (serialize (backupData farmerJs ?ts (snapshotJs VNaN)))) ''liabilities''
      = VArr [loanJs VNull]"
    by (simp add: getProp_backup lia) (simp add: loanJs_def)
  have ver: "getProp (parse (serialize (backupData farmerJs ?ts (snapshotJs (VNum 25))))) ''version''
      = VStr ''1.3''"
    by (simp add: getProp_backup)
  have "getProp (snapshotJs (VNum 25)) ''version'' = VUndefined"
    by (simp add: getProp_def snapshotJs_def)
  then have diff: "parse (serialize (backupData farmerJs ?ts (snapshotJs (VNum 25)))) \<noteq> snapshotJs (VNum 25)"
    using ver by auto
  have ne: "loanJs VNull \<noteq> loanJs VNaN"
    by (simp add: loanJs_def)
  have i1: "fst (handleImport setData ''TypeError'' True
         (Some (Inr (serialize (backupData farmerJs ?ts (snapshotJs v))))) (app, st))
      = parse (serialize (backupData farmerJs ?ts (snapshotJs v)))" for v app st
    by (simp only: handleImport_accepts [OF ok] fst_conv)
  show ?thesis
    unfolding i1 using reread diff lia [of VNaN] ne handleExport_text by blast
qed

text \<open>
  C8, amended. For every snapshot that JSON carries unchanged (nothing undefined and no
  NaN or Infinity in it) and that has its transactions and categories, exporting it and
  importing the exported file, with the restore confirmed, leaves a state in which each
  of the eleven fields of FarmData is the one of the snapshot; besides them the state
  holds the version, the timestamp and the user of the backup. No error is recorded.
\<close>

theorem import_export_roundtrip:
  assumes "carried S" "carried u"
    and "truthy (getProp S ''transactions'')" "truthy (getProp S ''categories'')"
  shows "handleExport u ts S = Some (serialize (backupData u ts S))
     \<and> (\<forall>k \<in> set farmDataKeys.
          getProp (fst (handleImport setData msg True
                     (Some (Inr (serialize (backupData u ts S)))) (app, st))) k
            = getProp S k)
     \<and> getProp (fst (handleImport setData msg True
                  (Some (Inr (serialize (backupData u ts S)))) (app, st))) ''version'' = VStr ''1.3''
     \<and> getProp (fst (handleImport setData msg True
                  (Some (Inr (serialize (backupData u ts S)))) (app, st))) ''timestamp'' = VStr ts
     \<and> getProp (fst (handleImport setData msg True
                  (Some (Inr (serialize (backupData u ts S)))) (app, st))) ''user'' = u
     \<and> importError (snd (handleImport setData msg True
                  (Some (Inr (serialize (backupData u ts S)))) (app, st))) = None"
proof -
  note reread = reparsed_backup [OF assms(1,2), of ts]
  have t: "truthy (getProp (parse (serialize (backupData u ts S))) ''transactions'')"
    using reread(4) assms(3) by (simp add: farmDataKeys_def)
  have c: "truthy (getProp (parse (serialize (backupData u ts S))) ''categories'')"
    using reread(4) assms(4) by (simp add: farmDataKeys_def)
  have i: "handleImport setData msg True (Some (Inr (serialize (backupData u ts S)))) (app, st)
       = (parse (serialize (backupData u ts S)),
          st\<lparr>isImporting := False, importError := None,
             alerts := alerts st @ [''Data restored successfully!'']\<rparr>)"
    by (rule handleImport_accepts [OF t c])
  show ?thesis
    unfolding i fst_conv snd_conv using reread handleExport_text [of u ts S] by simp
qed

theorem import_export_roundtrip_witness:
  "carried (snapshotJs (VNum 25)) \<and> carried farmerJs
   \<and> truthy (getProp (snapshotJs (VNum 25)) ''transactions'')
   \<and> truthy (getProp (snapshotJs (VNum 25)) ''categories'')
   \<and> getProp (fst (handleImport setData ''TypeError'' True
         (Some (Inr (serialize (backupData farmerJs ''2024-03-06T08:00:00.000Z'' (snapshotJs (VNum 25))))))
         (VObj [], idle))) ''liabilities'' = VArr [loanJs (VNum 25)]
   \<and> getProp (fst (handleImport setData ''TypeError'' True
         (Some (Inr (serialize (backupData farmerJs ''2024-03-06T08:00:00.000Z'' (snapshotJs (VNum 25))))))
         (VObj [], idle))) ''isSidebarCollapsed'' = VBool False"
proof -
  have c: "carried (snapshotJs (VNum 25))" "carried farmerJs"
    by (simp_all add: snapshotJs_def loanJs_def farmerJs_def)
  have t: "truthy (getProp (snapshotJs (VNum 25)) ''transactions'')"
    "truthy (getProp (snapshotJs (VNum 25)) ''categories'')"
    by (simp_all add: getProp_def snapshotJs_def truthy_def)
  have g: "getProp (snapshotJs (VNum 25)) ''liabilities'' = VArr [loanJs (VNum 25)]"
    "getProp (snapshotJs (VNum 25)) ''isSidebarCollapsed'' = VBool False"
    by (simp_all add: getProp_def snapshotJs_def)
  have keys: "''liabilities'' \<in> set farmDataKeys" "''isSidebarCollapsed'' \<in> set farmDataKeys"
    by (simp_all add: farmDataKeys_def)
  note r = import_export_roundtrip [OF c t, of "''2024-03-06T08:00:00.000Z''" "''TypeError''" "VObj []" idle]
  have all: "\<forall>k \<in> set farmDataKeys.
          getProp (fst (handleImport setData ''TypeError'' True
                     (Some (Inr (serialize (backupData farmerJs ''2024-03-06T08:00:00.000Z'' (snapshotJs (VNum 25))))))
                     (VObj [], idle))) k
            = getProp (snapshotJs (VNum 25)) k"
    using r by blast
  show ?thesis
    using all [rule_format, OF keys(1)] all [rule_format, OF keys(2)] c t g by simp
qed

text \<open>
  C9 does not hold of the code in full. A file that lacks the transactions or the
  categories is rejected: the callback is not called and the state of its owner is the
  one before. The message, "Invalid backup file format." or that of the TypeError for a
  file that reads null, is stored in \<^verbatim>\<open>importError\<close>, which nothing displays, and no
  alert is shown.
\<close>

theorem import_rejects_incomplete:
  assumes "\<not> truthy (getProp (parse text) ''transactions'') \<or> \<not> truthy (getProp (parse text) ''categories'')"
  shows "fst (handleImport onImportData msg confirmed (Some (Inr text)) (app, st)) = app
       \<and> importError (snd (handleImport onImportData msg confirmed (Some (Inr text)) (app, st)))
           = Some (if parse text = VNull then msg else ''Invalid backup file format.'')
       \<and> alerts (snd (handleImport onImportData msg confirmed (Some (Inr text)) (app, st))) = alerts st
       \<and> isImporting (snd (handleImport onImportData msg confirmed (Some (Inr text)) (app, st))) = False"
  using assms by (auto simp add: handleImport_def Let_def)

text \<open>A backup file without categories, and a file that reads null, restored over a snapshot.\<close>

theorem import_rejection_not_shown:
  "\<not> truthy (getProp (parse noCategoriesFile) ''categories'')
   \<and> parse noCategoriesFile \<noteq> VNull
   \<and> handleImport setData ''TypeError'' True (Some (Inr noCategoriesFile)) (snapshotJs (VNum 25), idle)
       = (snapshotJs (VNum 25),
          \<lparr>importError = Some ''Invalid backup file format.'', isImporting = False, alerts = []\<rparr>)
   \<and> \<not> truthy (getProp (parse JNull) ''transactions'')
   \<and> handleImport setData ''TypeError'' True (Some (Inr JNull)) (snapshotJs (VNum 25), idle)
       = (snapshotJs (VNum 25),
          \<lparr>importError = Some ''TypeError'', isImporting = False, alerts = []\<rparr>)"
proof -
  have g: "getProp (parse noCategoriesFile) ''categories'' = VUndefined"
    "parse noCategoriesFile \<noteq> VNull"
    by (simp_all add: noCategoriesFile_def getProp_def)
  then have n: "\<not> truthy (getProp (parse noCategoriesFile) ''categories'')"
    by (simp add: truthy_def)
  then have h1: "\<not> truthy (getProp (parse noCategoriesFile) ''transactions'')
      \<or> \<not> truthy (getProp (parse noCategoriesFile) ''categories'')"
    by simp
  have m: "\<not> truthy (getProp (parse JNull) ''transactions'')"
    by (simp add: getProp_def truthy_def)
  then have h2: "\<not> truthy (getProp (parse JNull) ''transactions'')
      \<or> \<not> truthy (getProp (parse JNull) ''categories'')"
    by simp
  have shape: "r = (fst r, \<lparr>importError = importError (snd r), isImporting = isImporting (snd r),
      alerts = alerts (snd r)\<rparr>)" for r :: "jsval \<times> SettingsState"
    by (cases r) simp
  show ?thesis
    using import_rejects_incomplete [OF h1, of setData "''TypeError''" True "snapshotJs (VNum 25)" idle]
      import_rejects_incomplete [OF h2, of setData "''TypeError''" True "snapshotJs (VNum 25)" idle]
      n m g(2)
      shape [of "handleImport setData ''TypeError'' True (Some (Inr noCategoriesFile)) (snapshotJs (VNum 25), idle)"]
      shape [of "handleImport setData ''TypeError'' True (Some (Inr JNull)) (snapshotJs (VNum 25), idle)"]
    by (simp add: idle_def)
qed


section \<open>Debounced push: results\<close>

lemma tracked_clearPending: "tracked s \<Longrightarrow> pending (clearPending s) = []"
  by (cases "pending s") (auto simp add: tracked_def clearPending_def clearTimeout_def filter_empty_conv split: option.split)

lemma clearPending_fields [simp]:
  "app_user (clearPending s) = app_user s" "app_data (clearPending s) = app_data s" "clock_ms (clearPending s) = clock_ms s"
  "pushed (clearPending s) = pushed s" "nextTimerId (clearPending s) = nextTimerId s"
  "syncTimeoutRef (clearPending s) = syncTimeoutRef s" "hasCleanup (clearPending s) = hasCleanup s"
  by (simp_all add: clearPending_def clearTimeout_def split: option.split)

lemma armed_tracked: "armed em t s \<Longrightarrow> tracked s"
  by (auto simp add: armed_def tracked_def)

lemma mutate_arms:
  assumes "tracked s" "app_user s = Some u" 
  shows "armed (user_email u) (clock_ms s) (step (Mutate f) s)"
    and "pushed (step (Mutate f) s) = pushed s"
    and "app_user (step (Mutate f) s) = Some u"
    and "app_data (step (Mutate f) s) = f (app_data s)"
    and "clock_ms (step (Mutate f) s) = clock_ms s"
proof -
  let ?s0 = "s\<lparr>app_data := f (app_data s)\<rparr>"
  have w: "tracked ?s0" using assms(1) by (simp add: tracked_def)
  have c: "pending (clearPending ?s0) = []" using w by (rule tracked_clearPending)
  have c2: "pending (clearPending (clearPending ?s0)) = []"
    using c by (simp add: clearPending_def clearTimeout_def split: option.split)
  have c3: "\<not> hasCleanup s \<Longrightarrow> pending s = []" using assms(1) by (auto simp add: tracked_def)
  have c4: "pending s = [] \<Longrightarrow> pending (clearPending ?s0) = []" using c by simp
  show "armed (user_email u) (clock_ms s) (step (Mutate f) s)"
    using assms(2) c c2 c3 by (simp add: syncEffect_def Let_def armed_def)
  show "pushed (step (Mutate f) s) = pushed s"
    using assms(2) by (simp add: syncEffect_def Let_def)
  show "app_user (step (Mutate f) s) = Some u"
    using assms(2) by (simp add: syncEffect_def Let_def)
  show "app_data (step (Mutate f) s) = f (app_data s)"
    using assms(2) by (simp add: syncEffect_def Let_def)
  show "clock_ms (step (Mutate f) s) = clock_ms s"
    using assms(2) by (simp add: syncEffect_def Let_def)
qed

lemma tracked_advance: "tracked s \<Longrightarrow> tracked (advance t s)"
  by (auto simp add: tracked_def advance_def)

lemma advance_fields [simp]:
  "app_user (advance t s) = app_user s" "app_data (advance t s) = app_data s" "clock_ms (advance t s) = t"
  "syncTimeoutRef (advance t s) = syncTimeoutRef s" "hasCleanup (advance t s) = hasCleanup s"
  by (simp_all add: advance_def)

lemma advance_pending:
  assumes "armed em t s" "t' < t + 2000"
  shows "armed em t (advance t' s)" "pushed (advance t' s) = pushed s"
  using assms by (auto simp add: armed_def advance_def)

lemma advance_fires:
  assumes "armed em t s" "t + 2000 \<le> T"
  shows "pushed (advance T s) = pushed s @ [(em, app_data s)]" "pending (advance T s) = []"
  using assms by (auto simp add: armed_def advance_def)

lemma advance_idle:
  assumes "pending s = []"
  shows "pushed (advance T s) = pushed s"
  using assms by (simp add: advance_def)

lemma logout_cancels:
  assumes "tracked s"
  shows "pending (step Logout s) = []" "pushed (step Logout s) = pushed s"
proof -
  let ?s0 = "s\<lparr>app_user := None\<rparr>"
  have w: "tracked ?s0" using assms by (simp add: tracked_def)
  have c: "pending (clearPending ?s0) = []" using w by (rule tracked_clearPending)
  have n: "\<not> hasCleanup s \<Longrightarrow> pending s = []" using assms by (auto simp add: tracked_def)
  show "pending (step Logout s) = []"
    using c n by (simp add: syncEffect_def Let_def)
  show "pushed (step Logout s) = pushed s"
    by (simp add: syncEffect_def Let_def)
qed

text \<open>The ref tracks the pending timers in every state a run reaches.\<close>

lemma tracked_step:
  assumes "tracked s"
  shows "tracked (step e s)"
proof (cases e)
  case (Mutate f)
  show ?thesis
  proof (cases "app_user s")
    case None
    have "pending (clearPending (s\<lparr>app_data := f (app_data s)\<rparr>)) = []"
      using assms by (intro tracked_clearPending) (simp add: tracked_def)
    moreover have "\<not> hasCleanup s \<Longrightarrow> pending s = []"
      using assms by (auto simp add: tracked_def)
    ultimately show ?thesis
      using None Mutate by (simp add: syncEffect_def Let_def tracked_def)
  next
    case (Some u)
    then have "app_user (s\<lparr>app_data := app_data s\<rparr>) = Some u"
      by simp
    show ?thesis
      using mutate_arms(1) [OF assms Some, of f] Mutate by (simp add: armed_tracked)
  qed
next
  case Logout
  show ?thesis
    using logout_cancels(1) [OF assms] Logout by (simp add: tracked_def)
qed

lemma tracked_run:
  assumes "tracked s"
  shows "tracked (run evs s)"
  using assms
proof (induction evs arbitrary: s)
  case Nil
  then show ?case by simp
next
  case (Cons ev evs)
  obtain t e where ev: "ev = (t, e)" by (cases ev)
  have "tracked (step e (advance t s))"
    using Cons.prems by (intro tracked_step tracked_advance)
  then show ?case
    using Cons.IH ev by simp
qed

lemma run_windowed:
  assumes "armed (user_email u) t s" "app_user s = Some u" "windowed t ms"
  shows "armed (user_email u) (lastTime t ms) (run (mutations ms) s)
       \<and> pushed (run (mutations ms) s) = pushed s
       \<and> app_user (run (mutations ms) s) = Some u
       \<and> app_data (run (mutations ms) s) = applyAll ms (app_data s)"
  using assms
proof (induction ms arbitrary: s t)
  case Nil
  then show ?case by (simp add: mutations_def lastTime_def applyAll_def)
next
  case (Cons m ms)
  obtain t' f where m: "m = (t', f)" by (cases m)
  have win: "t \<le> t'" "t' < t + 2000" "windowed t' ms"
    using Cons.prems(3) m by simp_all
  let ?a = "advance t' s"
  let ?s = "step (Mutate f) ?a"
  have a: "armed (user_email u) t ?a" "pushed ?a = pushed s"
    using advance_pending [OF Cons.prems(1) win(2)] by simp_all
  have ua: "app_user ?a = Some u" using Cons.prems(2) by simp
  have wa: "tracked ?a" using a(1) by (rule armed_tracked)
  have st: "armed (user_email u) t' ?s" "pushed ?s = pushed s" "app_user ?s = Some u"
    "app_data ?s = f (app_data s)"
    using mutate_arms [OF wa ua, of f] a(2) by simp_all
  have ih: "armed (user_email u) (lastTime t' ms) (run (mutations ms) ?s)
       \<and> pushed (run (mutations ms) ?s) = pushed ?s
       \<and> app_user (run (mutations ms) ?s) = Some u
       \<and> app_data (run (mutations ms) ?s) = applyAll ms (app_data ?s)"
    using Cons.IH [OF st(1) st(3) win(3)] .
  have r: "run (mutations (m # ms)) s = run (mutations ms) ?s"
    by (simp add: mutations_def m)
  have lt: "lastTime t (m # ms) = lastTime t' ms"
    by (simp add: lastTime_def m)
  have ap: "applyAll (m # ms) (app_data s) = applyAll ms (f (app_data s))"
    by (simp add: applyAll_def m)
  show ?case
    unfolding r lt ap using ih st(2) st(4) by simp
qed

text \<open>
  C7. Start signed in, with the pending timers tracked by the ref. Let mutations follow
  one another, the first at \<open>t1\<close>, each less than 2000 ms after the one before. Then
  once 2000 ms have passed since the last of them, exactly one push has been added to
  those made before the first mutation, and it carries the app_data as of the last mutation.
  Until then none has been added; and a logout in that time leaves no timer pending, so
  that no push is added however long one waits.
\<close>

theorem debounce_single_push:
  assumes "tracked s0" "app_user s0 = Some u" "windowed t1 rest"
  shows "(lastTime t1 rest + 2000 \<le> T \<longrightarrow>
            pushed (advance T (run (mutations ((t1, f1) # rest)) s0))
              = pushed (advance t1 s0) @ [(user_email u, applyAll ((t1, f1) # rest) (app_data s0))])
       \<and> (T' < lastTime t1 rest + 2000 \<longrightarrow>
            pushed (advance T' (run (mutations ((t1, f1) # rest)) s0)) = pushed (advance t1 s0)
            \<and> pending (step Logout (advance T' (run (mutations ((t1, f1) # rest)) s0))) = []
            \<and> pushed (advance T (step Logout (advance T' (run (mutations ((t1, f1) # rest)) s0))))
                = pushed (advance t1 s0))"
proof -
  let ?a = "advance t1 s0"
  let ?s = "step (Mutate f1) ?a"
  let ?r = "run (mutations ((t1, f1) # rest)) s0"
  have wa: "tracked ?a" using assms(1) by (rule tracked_advance)
  have ua: "app_user ?a = Some u" using assms(2) by simp
  have st: "armed (user_email u) t1 ?s" "pushed ?s = pushed ?a" "app_user ?s = Some u"
    "app_data ?s = f1 (app_data s0)"
    using mutate_arms [OF wa ua, of f1] by simp_all
  have r: "?r = run (mutations rest) ?s"
    by (simp add: mutations_def)
  have fin: "armed (user_email u) (lastTime t1 rest) ?r" "pushed ?r = pushed ?a"
    "app_data ?r = applyAll ((t1, f1) # rest) (app_data s0)"
    using run_windowed [OF st(1) st(3) assms(3)] st(2) st(4)
    unfolding r by (simp_all add: applyAll_def)
  show ?thesis
  proof (intro conjI impI)
    assume "lastTime t1 rest + 2000 \<le> T"
    then show "pushed (advance T ?r)
              = pushed ?a @ [(user_email u, applyAll ((t1, f1) # rest) (app_data s0))]"
      using advance_fires(1) [OF fin(1)] fin(2) fin(3) by simp
  next
    assume lt: "T' < lastTime t1 rest + 2000"
    show "pushed (advance T' ?r) = pushed ?a"
      using advance_pending(2) [OF fin(1) lt] fin(2) by simp
  next
    assume lt: "T' < lastTime t1 rest + 2000"
    have "tracked (advance T' ?r)"
      using advance_pending(1) [OF fin(1) lt] by (rule armed_tracked)
    then show "pending (step Logout (advance T' ?r)) = []"
      by (rule logout_cancels(1))
  next
    assume lt: "T' < lastTime t1 rest + 2000"
    have w: "tracked (advance T' ?r)"
      using advance_pending(1) [OF fin(1) lt] by (rule armed_tracked)
    have "pushed (advance T (step Logout (advance T' ?r))) = pushed (step Logout (advance T' ?r))"
      using logout_cancels(1) [OF w] by (rule advance_idle)
    also have "\<dots> = pushed (advance T' ?r)"
      using logout_cancels(2) [OF w] .
    also have "\<dots> = pushed ?a"
      using advance_pending(2) [OF fin(1) lt] fin(2) by simp
    finally show "pushed (advance T (step Logout (advance T' ?r))) = pushed ?a" .
  qed
qed

theorem debounce_single_push_witness:
  "tracked signedIn \<and> app_user signedIn = Some farmer
   \<and> windowed 1000 [(2500, addHay), (3900, collapse)]
   \<and> lastTime 1000 [(2500, addHay), (3900, collapse)] + 2000 \<le> 6000
   \<and> 5000 < lastTime 1000 [(2500, addHay), (3900, collapse)] + 2000
   \<and> pushed (advance 6000 (run (mutations [(1000, addCow), (2500, addHay), (3900, collapse)]) signedIn))
       = [(user_email farmer, collapse (addHay (addCow emptyData)))]
   \<and> pushed (advance 5000 (run (mutations [(1000, addCow), (2500, addHay), (3900, collapse)]) signedIn))
       = []
   \<and> pushed (advance 6000 (step Logout
         (advance 5000 (run (mutations [(1000, addCow), (2500, addHay), (3900, collapse)]) signedIn))))
       = []"
proof -
  have t: "tracked signedIn"
    by (simp add: tracked_def signedIn_def)
  have u: "app_user signedIn = Some farmer"
    by (simp add: signedIn_def)
  have w: "windowed 1000 [(2500, addHay), (3900, collapse)]"
    by simp
  have l: "lastTime 1000 [(2500, addHay), (3900, collapse)] = 3900"
    by (simp add: lastTime_def)
  have p: "pushed (advance 1000 signedIn) = []"
    by (simp add: advance_def signedIn_def)
  have d: "applyAll [(1000, addCow), (2500, addHay), (3900, collapse)] (app_data signedIn)
         = collapse (addHay (addCow emptyData))"
    by (simp add: applyAll_def signedIn_def)
  show ?thesis
    using debounce_single_push [OF t u w, of 6000 addCow 5000] t u w l p d
    by simp
qed

end
